theory Spec2Isabelle
  imports Complex_Main
begin

section \<open>Numbers\<close>

text \<open>
  The components compute with JavaScript numbers, which are IEEE doubles. Array indices
  and node counts are modelled as mathematical integers (\<open>int\<close>), coordinates and angles
  as real numbers: the geometry below is the exact-arithmetic reading of the code.

  Node ids are integer-valued doubles, modelled by the integer they denote. The one
  arithmetic operation the code applies to an id is \<open>+ 1\<close>, and a sum of doubles is the
  exact sum rounded to the nearest double, ties to the even significand:
  \<open>round_to_double\<close> does this rounding for an integer (below the overflow threshold).
  Integers of magnitude up to \<open>2 ^ 53\<close> are doubles; a larger one keeps the 53 leading
  bits of its magnitude.
\<close>

fun bit_length :: "int \<Rightarrow> nat" where
  "bit_length k = (if k \<le> 0 then 0 else Suc (bit_length (k div 2)))"

declare bit_length.simps [simp del]

definition round_to_double :: "int \<Rightarrow> int" where
  "round_to_double k =
     (let m = \<bar>k\<bar>
      in if m \<le> 2 ^ 53 then k
         else
           (let u = 2 ^ (bit_length m - 53);
                q = m div u;
                r = m mod u;
                q' = (if 2 * r < u \<or> (2 * r = u \<and> even q) then q else q + 1)
            in sgn k * (q' * u)))"

definition js_add :: "int \<Rightarrow> int \<Rightarrow> int" where
  \<comment> \<open>\<open>a + b\<close> on integer-valued doubles\<close>
  "js_add a b = round_to_double (a + b)"

definition js_rem :: "int \<Rightarrow> int \<Rightarrow> int" where
  \<comment> \<open>\<open>a % n\<close> on integers: the remainder takes the sign of the dividend.
      JavaScript yields NaN for \<open>n = 0\<close>; every use below has \<open>n \<ge> 2\<close>.\<close>
  "js_rem a n = sgn a * (\<bar>a\<bar> mod \<bar>n\<bar>)"

definition js_fmod :: "real \<Rightarrow> real \<Rightarrow> real" where
  \<comment> \<open>\<open>a % n\<close> on non-integral numbers: \<open>a - n * trunc (a / n)\<close>.\<close>
  "js_fmod a n = a - n * real_of_int (if a / n < 0 then \<lceil>a / n\<rceil> else \<lfloor>a / n\<rfloor>)"

section \<open>Cycle layout (CycleSmartArt.tsx)\<close>

record point =
  pt_x :: real
  pt_y :: real

datatype position =
  PosRight | PosBottomRight | PosBottom | PosBottomLeft
  | PosLeft | PosTopLeft | PosTop | PosTopRight

record node_position =
  np_x :: real
  np_y :: real
  np_textX :: real
  np_textY :: real
  np_position :: position

definition default_radius :: real where
  \<comment> \<open>the default value of the \<open>radius\<close> parameter of both layout functions\<close>
  "default_radius = 250"

definition calculateNodePosition :: "int \<Rightarrow> int \<Rightarrow> real \<Rightarrow> node_position option" where
  \<comment> \<open>\<open>None\<close> stands for the object of NaN coordinates that \<open>360 / 0\<close> leads to.\<close>
  "calculateNodePosition index totalN radius =
     (if totalN = 0 then None
      else
        let angleInDegrees = 90 - real_of_int index * (360 / real_of_int totalN);
            angleInRadians = (angleInDegrees * pi) / 180;
            centerX = 400;
            centerY = 400;
            x = centerX + radius * cos angleInRadians;
            y = centerY - radius * sin angleInRadians;
            normalizedAngle = js_fmod (js_fmod angleInDegrees 360 + 360) 360;
            position =
              (if normalizedAngle \<ge> 337.5 \<or> normalizedAngle < 22.5 then PosRight
               else if normalizedAngle \<ge> 22.5 \<and> normalizedAngle < 67.5 then PosBottomRight
               else if normalizedAngle \<ge> 67.5 \<and> normalizedAngle < 112.5 then PosBottom
               else if normalizedAngle \<ge> 112.5 \<and> normalizedAngle < 157.5 then PosBottomLeft
               else if normalizedAngle \<ge> 157.5 \<and> normalizedAngle < 202.5 then PosLeft
               else if normalizedAngle \<ge> 202.5 \<and> normalizedAngle < 247.5 then PosTopLeft
               else if normalizedAngle \<ge> 247.5 \<and> normalizedAngle < 292.5 then PosTop
               else PosTopRight);
            contentOffsetX = 30 * cos angleInRadians;
            contentOffsetY = - 30 * sin angleInRadians;
            textX = x + contentOffsetX;
            textY = y + contentOffsetY
        in Some \<lparr>np_x = x, np_y = y, np_textX = textX, np_textY = textY,
                  np_position = position\<rparr>)"

definition calculateAddButtonPosition :: "int \<Rightarrow> int \<Rightarrow> real \<Rightarrow> point" where
  "calculateAddButtonPosition indexBefore totalN radius =
     (if totalN \<le> 1 then \<lparr>pt_x = 0, pt_y = 0\<rparr>
      else
        let angleBefore = 90 - real_of_int indexBefore * (360 / real_of_int totalN);
            angleAfter =
              90 - real_of_int (js_rem (indexBefore + 1) totalN) * (360 / real_of_int totalN);
            midAngle1 =
              (if \<bar>angleBefore - angleAfter\<bar> > 180 then
                 let adjustedAngleBefore =
                       (if angleBefore < 0 then angleBefore + 360 else angleBefore);
                     adjustedAngleAfter =
                       (if angleAfter < 0 then angleAfter + 360 else angleAfter);
                     m = (adjustedAngleBefore + adjustedAngleAfter + 360) / 2
                 in if m \<ge> 360 then m - 360 else m
               else (angleBefore + angleAfter) / 2);
            midAngle =
              (if indexBefore = totalN - 1 then
                 let m = (angleBefore + 360 + angleAfter) / 2
                 in if m \<ge> 360 then m - 360 else m
               else midAngle1);
            midAngleRad = (midAngle * pi) / 180;
            centerX = 400;
            centerY = 400;
            x = centerX + radius * cos midAngleRad;
            y = centerY - radius * sin midAngleRad
        in \<lparr>pt_x = x, pt_y = y\<rparr>)"

section \<open>Arrays\<close>

fun findIndex :: "('a \<Rightarrow> bool) \<Rightarrow> 'a list \<Rightarrow> int" where
  \<comment> \<open>\<open>xs.findIndex(P)\<close>: the first index whose element satisfies \<open>P\<close>, or -1\<close>
  "findIndex P [] = - 1"
| "findIndex P (x # xs) =
     (if P x then 0 else (let i = findIndex P xs in if i < 0 then - 1 else i + 1))"

definition splice_insert :: "int \<Rightarrow> 'a \<Rightarrow> 'a list \<Rightarrow> 'a list" where
  \<comment> \<open>\<open>xs.splice(start, 0, x)\<close> on a copy: a negative start counts from the end, and
      the start is clamped to \<open>[0, length]\<close>\<close>
  "splice_insert start x xs =
     (let len = int (length xs);
          actualStart = (if start < 0 then max (len + start) 0 else min start len)
      in take (nat actualStart) xs @ [x] @ drop (nat actualStart) xs)"

definition startsWith :: "string \<Rightarrow> string \<Rightarrow> bool" where
  "startsWith s prefix = (take (length prefix) s = prefix)"

section \<open>Cycle nodes (CycleSmartArt.tsx)\<close>

record CycleNode =
  cn_id :: int
  cn_title :: string
  cn_description :: string

definition handleAddNode_newId :: "int list \<Rightarrow> int" where
  \<comment> \<open>\<open>Math.max(...ids, 0) + 1\<close>, the maximum taken as a left-to-right scan of the
      arguments\<close>
  "handleAddNode_newId ids = js_add (fold max (tl (ids @ [0])) (hd (ids @ [0]))) 1"

definition handleAddNode :: "int \<Rightarrow> CycleNode list \<Rightarrow> CycleNode list" where
  \<comment> \<open>the updated array that is handed to \<open>onNodesChange\<close> or \<open>setInternalNodes\<close>\<close>
  "handleAddNode indexToInsertAfter nodes =
     (let newId = handleAddNode_newId (map cn_id nodes);
          newNode = \<lparr>cn_id = newId, cn_title = ''New Step'',
                     cn_description = ''Add details here''\<rparr>
      in splice_insert (indexToInsertAfter + 1) newNode nodes)"

section \<open>List component (ListSmartArt.tsx)\<close>

record Node =
  node_id :: int
  node_title :: string
  node_body :: string
  node_image :: string

record DOMRect =
  rect_left :: real
  rect_top :: real
  rect_width :: real
  rect_height :: real

text \<open>
  The component's \<open>useState\<close> cells, and the messages shown with \<open>alert\<close> so far (the
  only effect of the handlers outside the state that the properties speak of).
\<close>

record ListState =
  nodes :: "Node list"
  hoveredNode :: "int option"
  pressedNode :: "int option"
  editingTitle :: "int option"
  editingBody :: "int option"
  containerActive :: bool
  containerHovered :: bool
  insertPictureMenuOpen :: "int option"
  buttonRect :: "DOMRect option"
  generatingImageForNode :: "int option"
  alerts :: "string list"

definition initialState :: "Node list \<Rightarrow> ListState" where
  \<comment> \<open>the initial values of the \<open>useState\<close> cells\<close>
  "initialState initialNodes =
     \<lparr>nodes = initialNodes, hoveredNode = None, pressedNode = None, editingTitle = None,
      editingBody = None, containerActive = False, containerHovered = False,
      insertPictureMenuOpen = None, buttonRect = None, generatingImageForNode = None,
      alerts = []\<rparr>"

definition App_nodes :: "Node list" where
  \<comment> \<open>the sample data of App.tsx\<close>
  "App_nodes =
     [\<lparr>node_id = 1, node_title = ''Dogs'',
       node_body = ''Dogs are loyal, intelligent companions known for their unconditional love and protective nature.'',
       node_image = ''https://images.unsplash.com/photo-1543466835-00a7907e9de1?ixlib=rb-4.0.3&ixid=M3wxMjA3fDB8MHxwaG90by1wYWdlfHx8fGVufDB8fHx8fA%3D%3D&auto=format&fit=crop&w=300&q=80''\<rparr>,
      \<lparr>node_id = 2, node_title = ''Cats'',
       node_body = ''Cats are independent, curious creatures with a playful spirit and soothing purr that brings joy to many homes.'',
       node_image = ''https://images.unsplash.com/photo-1514888286974-6c03e2ca1dba?ixlib=rb-4.0.3&ixid=M3wxMjA3fDB8MHxwaG90by1wYWdlfHx8fGVufDB8fHx8fA%3D%3D&auto=format&fit=crop&w=300&q=80''\<rparr>,
      \<lparr>node_id = 3, node_title = ''Birds'',
       node_body = ''Birds are fascinating winged creatures that fill our skies with beautiful songs and vibrant colors.'',
       node_image = ''https://images.unsplash.com/photo-1444464666168-49d633b86797?ixlib=rb-4.0.3&ixid=M3wxMjA3fDB8MHxwaG90by1wYWdlfHx8fGVufDB8fHx8fA%3D%3D&auto=format&fit=crop&w=300&q=80''\<rparr>]"

definition DEFAULT_NEW_IMAGE :: string where
  "DEFAULT_NEW_IMAGE = ''https://images.unsplash.com/photo-1441974231531-c6227db76b6e?ixlib=rb-4.0.3&ixid=M3wxMjA3fDB8MHxwaG90by1wYWdlfHx8fGVufDB8fHx8fA%3D%3D&auto=format&fit=crop&w=300&q=80''"

definition FALLBACK_IMAGE :: string where
  \<comment> \<open>the image put in place after a failed generation, and by \<open>onError\<close> of the
      \<open>img\<close> element\<close>
  "FALLBACK_IMAGE = ''https://images.unsplash.com/photo-1579546929518-9e396f3cc809?w=800&h=600&q=80''"

definition NO_RESULTS_IMAGE :: string where
  "NO_RESULTS_IMAGE = ''https://images.unsplash.com/photo-1557682250-33bd709cbe85?w=800&h=600&q=80''"

subsection \<open>Pointer-down on the document\<close>

text \<open>What \<open>handleClickOutside\<close> asks of the event target: whether it lies in an element
  marked \<open>data-insert-button\<close>, in the menu, in the container. The refs are taken as
  mounted.\<close>

record click_target =
  closestInsertButton :: bool
  insideMenu :: bool
  insideContainer :: bool

definition handleClickOutside :: "click_target \<Rightarrow> ListState \<Rightarrow> ListState" where
  "handleClickOutside target st =
     (if insertPictureMenuOpen st \<noteq> None then
        (let isClickOnButton = closestInsertButton target;
             isClickOnMenu = insideMenu target
         in if \<not> isClickOnButton \<and> \<not> isClickOnMenu
            then st\<lparr>insertPictureMenuOpen := None, buttonRect := None\<rparr>
            else st)
      else if \<not> insideContainer target then
        st\<lparr>pressedNode := None, editingTitle := None, editingBody := None,
           containerActive := False, hoveredNode := None\<rparr>
      else st)"

subsection \<open>Mutations of the node sequence\<close>

definition handleAddClick_newId :: "Node list \<Rightarrow> int" where
  \<comment> \<open>\<open>nodes.length > 0 ? Math.max(...nodes.map(n => n.id)) + 1 : 1\<close>\<close>
  "handleAddClick_newId ns =
     (if length ns > 0 then js_add (fold max (tl (map node_id ns)) (hd (map node_id ns))) 1
      else 1)"

definition handleAddClick :: "int \<Rightarrow> ListState \<Rightarrow> ListState" where
  "handleAddClick position st =
     (let newId = handleAddClick_newId (nodes st);
          newNode = \<lparr>node_id = newId, node_title = ''Heading 4'',
                     node_body = ''Description'', node_image = DEFAULT_NEW_IMAGE\<rparr>;
          newNodes = splice_insert position newNode (nodes st)
      in st\<lparr>nodes := newNodes, pressedNode := Some newId, editingTitle := Some newId,
            editingBody := None, containerActive := False\<rparr>)"

definition handleTitleChange :: "int \<Rightarrow> string \<Rightarrow> ListState \<Rightarrow> ListState" where
  "handleTitleChange nodeId newTitle st =
     st\<lparr>nodes := map (\<lambda>node. if node_id node = nodeId
                               then node\<lparr>node_title := newTitle\<rparr> else node) (nodes st)\<rparr>"

definition handleBodyChange :: "int \<Rightarrow> string \<Rightarrow> ListState \<Rightarrow> ListState" where
  "handleBodyChange nodeId newBody st =
     st\<lparr>nodes := map (\<lambda>node. if node_id node = nodeId
                               then node\<lparr>node_body := newBody\<rparr> else node) (nodes st)\<rparr>"

definition handleMoveLeft :: "int \<Rightarrow> ListState \<Rightarrow> ListState" where
  "handleMoveLeft nodeId st =
     (let currentIndex = findIndex (\<lambda>node. node_id node = nodeId) (nodes st)
      in if currentIndex > 0 then
           (let i = nat currentIndex;
                newNodes = (nodes st)[i := nodes st ! (i - 1), i - 1 := nodes st ! i]
            in st\<lparr>nodes := newNodes, pressedNode := Some nodeId, containerActive := False,
                  editingTitle := None, editingBody := None\<rparr>)
         else st)"

text \<open>
  \<open>handleMoveRight\<close> guards the swap with \<open>currentIndex < nodes.length - 1\<close> only. For an
  id that no node carries \<open>findIndex\<close> yields -1, the guard holds in a non-empty
  sequence, and the swap stores \<open>newNodes[-1]\<close>, which is \<open>undefined\<close>, at index 0: the
  array no longer holds a node there and the next render fails on \<open>node.id\<close>. The model
  returns this as \<open>Inl UndefinedNode\<close>.
\<close>

datatype crash = UndefinedNode

definition handleMoveRight :: "int \<Rightarrow> ListState \<Rightarrow> crash + ListState" where
  "handleMoveRight nodeId st =
     (let currentIndex = findIndex (\<lambda>node. node_id node = nodeId) (nodes st)
      in if currentIndex < int (length (nodes st)) - 1 then
           (if currentIndex < 0 then Inl UndefinedNode
            else
              (let i = nat currentIndex;
                   newNodes = (nodes st)[i := nodes st ! (i + 1), i + 1 := nodes st ! i]
               in Inr (st\<lparr>nodes := newNodes, pressedNode := Some nodeId,
                           containerActive := False,
                           editingTitle := None, editingBody := None\<rparr>)))
         else Inr st)"

definition handleDeleteNode :: "int \<Rightarrow> ListState \<Rightarrow> ListState" where
  "handleDeleteNode nodeId st =
     (if length (nodes st) \<le> 1 then st
      else
        (let newNodes = filter (\<lambda>node. node_id node \<noteq> nodeId) (nodes st)
         in st\<lparr>nodes := newNodes, pressedNode := None, editingTitle := None,
               editingBody := None\<rparr>))"

subsection \<open>Images\<close>

text \<open>
  A value thrown in JavaScript is an \<open>Error\<close> with its message, or something else. The
  image search answers a request by rejecting, or with a response; \<open>resp_text\<close> and
  \<open>resp_json\<close> are what \<open>response.text()\<close> and \<open>response.json()\<close> settle to, the
  data read as the list of its \<open>results[k].urls.regular\<close> (empty when the data has no
  results).
\<close>

datatype thrown = JsError string | NonError

record http_response =
  resp_ok :: bool
  resp_status :: nat
  resp_statusText :: string
  resp_text :: "thrown + string"
  resp_json :: "thrown + string list"

datatype fetch_outcome = Rejected thrown | Responded http_response

fun show_nat :: "nat \<Rightarrow> string" where
  "show_nat n =
     (if n < 10 then [char_of (48 + n)]
      else show_nat (n div 10) @ [char_of (48 + n mod 10)])"

definition generateImageForTitle :: "(string \<Rightarrow> fetch_outcome) \<Rightarrow> string \<Rightarrow> thrown + string" where
  \<comment> \<open>\<open>unsplash title\<close> is the service's answer to the search built from the title;
      \<open>Inl\<close> is the rejection of the promise\<close>
  "generateImageForTitle unsplash title =
     (case unsplash title of
        Rejected error \<Rightarrow> Inl error
      | Responded response \<Rightarrow>
          if \<not> resp_ok response then
            (case resp_text response of
               Inl error \<Rightarrow> Inl error
             | Inr errorText \<Rightarrow>
                 Inl (JsError (''Unsplash API error ('' @ show_nat (resp_status response)
                               @ ''): '' @ resp_statusText response)))
          else
            (case resp_json response of
               Inl error \<Rightarrow> Inl error
             | Inr results \<Rightarrow>
                 if length results > 0 then Inr (hd results) else Inr NO_RESULTS_IMAGE))"

text \<open>
  \<open>handlePictureSourceSelect\<close> looks the node up and defers the rest with
  \<open>setTimeout(..., 0)\<close>; the model runs the deferred part at once. It runs in two parts.
  The first, up to the \<open>await\<close>, closes the menu and says what is left pending; the second, \<open>handlePictureSourceSelect_settled\<close>,
  is the rest of the \<open>try\<close>, the \<open>catch\<close> and the \<open>finally\<close>, run on the state the
  component has when the request settles (the updates are functional: \<open>setNodes(prevNodes
  => ...)\<close>).
\<close>

datatype pending = NothingPending | FileDialog int | ImageRequest int string

definition handlePictureSourceSelect :: "int \<Rightarrow> string \<Rightarrow> ListState \<Rightarrow> ListState \<times> pending" where
  "handlePictureSourceSelect nodeId source st =
     (case find (\<lambda>node. node_id node = nodeId) (nodes st) of
        None \<Rightarrow> (st, NothingPending)
      | Some currentNode \<Rightarrow>
          (let st1 = st\<lparr>insertPictureMenuOpen := None, buttonRect := None,
                        hoveredNode := None\<rparr>
           in if source = ''This Device'' then (st1, FileDialog nodeId)
              else if source = ''Stock Images'' then
                (st1\<lparr>alerts := alerts st1
                        @ [''Stock Images feature would open a library of stock images'']\<rparr>,
                 NothingPending)
              else if source = ''Generate with AI'' then
                (st1\<lparr>generatingImageForNode := Some nodeId\<rparr>,
                 ImageRequest nodeId (node_title currentNode))
              else (st1, NothingPending)))"

definition handlePictureSourceSelect_settled :: "int \<Rightarrow> thrown + string \<Rightarrow> ListState \<Rightarrow> ListState" where
  "handlePictureSourceSelect_settled targetNodeId settled st =
     (case settled of
        Inr generatedImageUrl \<Rightarrow>
          st\<lparr>nodes := map (\<lambda>node. if node_id node = targetNodeId
                                    then node\<lparr>node_image := generatedImageUrl\<rparr> else node)
                           (nodes st),
             generatingImageForNode := None\<rparr>
      | Inl error \<Rightarrow>
          (let errorMessage = (case error of JsError message \<Rightarrow> message
                                           | NonError \<Rightarrow> ''Unknown error'')
           in st\<lparr>alerts := alerts st
                     @ [''Failed to generate image: '' @ errorMessage @ ''. Please try again.''],
                 nodes := map (\<lambda>node. if node_id node = targetNodeId
                                       then node\<lparr>node_image := FALLBACK_IMAGE\<rparr> else node)
                              (nodes st),
                 generatingImageForNode := None\<rparr>))"

record picked_file =
  file_type :: string
  file_objectURL :: string

definition handleFileSelection :: "Node list \<Rightarrow> int \<Rightarrow> picked_file option \<Rightarrow> ListState \<Rightarrow> ListState" where
  \<comment> \<open>\<open>renderedNodes\<close> is the \<open>nodes\<close> array the handler closed over when the dialog was
      opened; the update itself is functional\<close>
  "handleFileSelection renderedNodes nodeId selected st =
     (case find (\<lambda>node. node_id node = nodeId) renderedNodes of
        None \<Rightarrow> st
      | Some nodeToUpdate \<Rightarrow>
          (case selected of
             None \<Rightarrow> st
           | Some f \<Rightarrow>
               if \<not> startsWith (file_type f) ''image/'' then
                 st\<lparr>alerts := alerts st
                       @ [''Please select an image file (JPEG, PNG, GIF, etc.)'']\<rparr>
               else
                 st\<lparr>nodes := map (\<lambda>node. if node_id node = nodeId
                                           then node\<lparr>node_image := file_objectURL f\<rparr>
                                           else node) (nodes st)\<rparr>))"

subsection \<open>The add buttons between the columns\<close>

record add_button =
  btn_left :: real
  btn_position :: int

definition betweenColumnAddButtons :: "bool \<Rightarrow> int option \<Rightarrow> nat \<Rightarrow> add_button list" where
  \<comment> \<open>the buttons rendered between the columns, in order: the \<open>left\<close> style in
      pixels, and the position their click hands to \<open>handleAddClick\<close>\<close>
  "betweenColumnAddButtons hovered pressed nodeCount =
     (if hovered \<and> pressed = None \<and> nodeCount > 1 then
        map (\<lambda>idx.
              let nodeWidth = 200;
                  nodeGap = 24;
                  position = int idx + 1;
                  containerPadding = 20;
                  leftPos = containerPadding + (real_of_int position * nodeWidth)
                            + ((real_of_int position - 1) * nodeGap) + (nodeGap / 2) + 6
              in \<lparr>btn_left = leftPos, btn_position = position\<rparr>)
            [0 ..< nodeCount - 1]
      else [])"

subsection \<open>Sequences of operations\<close>

datatype list_op =
  AddClick int
  | TitleChange int string
  | BodyChange int string
  | MoveLeft int
  | MoveRight int
  | DeleteNode int
  | FileSelection "Node list" int "picked_file option"
  | PictureSourceSelect int string
  | ImageSettled int "thrown + string"
  | ClickOutside click_target

fun apply_op :: "list_op \<Rightarrow> ListState \<Rightarrow> crash + ListState" where
  "apply_op (AddClick position) st = Inr (handleAddClick position st)"
| "apply_op (TitleChange nodeId newTitle) st = Inr (handleTitleChange nodeId newTitle st)"
| "apply_op (BodyChange nodeId newBody) st = Inr (handleBodyChange nodeId newBody st)"
| "apply_op (MoveLeft nodeId) st = Inr (handleMoveLeft nodeId st)"
| "apply_op (MoveRight nodeId) st = handleMoveRight nodeId st"
| "apply_op (DeleteNode nodeId) st = Inr (handleDeleteNode nodeId st)"
| "apply_op (FileSelection renderedNodes nodeId selected) st =
     Inr (handleFileSelection renderedNodes nodeId selected st)"
| "apply_op (PictureSourceSelect nodeId source) st =
     Inr (fst (handlePictureSourceSelect nodeId source st))"
| "apply_op (ImageSettled nodeId settled) st =
     Inr (handlePictureSourceSelect_settled nodeId settled st)"
| "apply_op (ClickOutside target) st = Inr (handleClickOutside target st)"

fun run_ops :: "list_op list \<Rightarrow> ListState \<Rightarrow> crash + ListState" where
  "run_ops [] st = Inr st"
| "run_ops (op # ops) st =
     (case apply_op op st of Inl c \<Rightarrow> Inl c | Inr st' \<Rightarrow> run_ops ops st')"

text \<open>The toolbar of a node is where \<open>handleMoveRight\<close> is called from, with the id of
  that node: an operation comes from the rendered interface when its move-right names a
  node of the sequence it is applied to.\<close>

fun from_toolbar :: "list_op \<Rightarrow> ListState \<Rightarrow> bool" where
  "from_toolbar (MoveRight nodeId) st = (nodeId \<in> set (map node_id (nodes st)))"
| "from_toolbar _ st = True"

fun all_from_toolbar :: "list_op list \<Rightarrow> ListState \<Rightarrow> bool" where
  "all_from_toolbar [] st = True"
| "all_from_toolbar (op # ops) st =
     (from_toolbar op st
      \<and> (case apply_op op st of Inl c \<Rightarrow> True | Inr st' \<Rightarrow> all_from_toolbar ops st'))"


text \<open>The operations that insert a node, and how many of them a sequence holds.\<close>

fun is_insert :: "list_op \<Rightarrow> bool" where
  "is_insert (AddClick position) = True"
| "is_insert _ = False"

definition count_inserts :: "list_op list \<Rightarrow> nat" where
  "count_inserts ops = length (filter is_insert ops)"

text \<open>Vocabulary of the properties: ids that leave room for \<open>c\<close> more inserts. Every id,
  and 0 (the floor of the first fresh id), is an integer of magnitude at most \<open>2 ^ 53\<close> that
  stays at most \<open>2 ^ 53\<close> when \<open>c\<close> is added: up to there \<open>+ 1\<close> on doubles is exact.\<close>

definition id_headroom :: "nat \<Rightarrow> int list \<Rightarrow> bool" where
  "id_headroom c ids = list_all (\<lambda>i. - (2 ^ 53) \<le> i \<and> i + int c \<le> 2 ^ 53) (0 # ids)"

text \<open>Vocabulary of the properties: a request that fails with a network or an HTTP
  error.\<close>

definition request_failed :: "fetch_outcome \<Rightarrow> bool" where
  "request_failed outcome = (case outcome of Rejected error \<Rightarrow> True
                                            | Responded response \<Rightarrow> \<not> resp_ok response)"

text \<open>Vocabulary of the properties: the distance of a point from the centre of the
  container, and the point of the circle that sits at an angle given in degrees.\<close>

definition distFromCenter :: "real \<Rightarrow> real \<Rightarrow> real" where
  "distFromCenter x y = sqrt ((x - 400)\<^sup>2 + (y - 400)\<^sup>2)"

definition circlePoint :: "real \<Rightarrow> real \<Rightarrow> point" where
  "circlePoint radius deg =
     \<lparr>pt_x = 400 + radius * cos ((deg * pi) / 180),
      pt_y = 400 - radius * sin ((deg * pi) / 180)\<rparr>"

section \<open>Properties of the cycle layout\<close>

lemma distFromCenter_polar:
  "0 \<le> r \<Longrightarrow> distFromCenter (400 + r * cos a) (400 - r * sin a) = r"
proof -
  assume r: "0 \<le> r"
  have "(400 + r * cos a - 400)\<^sup>2 + (400 - r * sin a - 400)\<^sup>2
        = r\<^sup>2 * (cos a)\<^sup>2 + r\<^sup>2 * (sin a)\<^sup>2"
    by (simp add: power_mult_distrib)
  also have "\<dots> = r\<^sup>2 * ((sin a)\<^sup>2 + (cos a)\<^sup>2)"
    by (simp only: distrib_left add.commute)
  also have "\<dots> = r\<^sup>2"
    by simp
  finally show ?thesis
    using r by (simp add: distFromCenter_def)
qed

lemma cos_less_full_turn: "cos (((d - 360) * pi) / 180) = cos ((d * pi) / 180)"
proof -
  have e: "(d * pi) / 180 = ((d - 360) * pi) / 180 + 2 * pi"
    by (simp add: field_simps)
  show ?thesis
    by (subst e) (simp only: cos_periodic)
qed

lemma sin_less_full_turn: "sin (((d - 360) * pi) / 180) = sin ((d * pi) / 180)"
proof -
  have e: "(d * pi) / 180 = ((d - 360) * pi) / 180 + 2 * pi"
    by (simp add: field_simps)
  show ?thesis
    by (subst e) (simp only: sin_periodic)
qed


lemma js_rem_self: "js_rem n n = 0"
  by (simp add: js_rem_def)

lemma node_angle_of_last:
  assumes "2 \<le> totalN"
  shows "90 - real_of_int (totalN - 1) * (360 / real_of_int totalN)
         = (90 + 360 / real_of_int totalN) - 360"
proof -
  have "real_of_int totalN \<noteq> 0"
    using assms by simp
  then show ?thesis
    by (simp add: field_simps)
qed

lemma half_step_bounds:
  assumes "2 \<le> totalN"
  shows "0 < 180 / real_of_int totalN" and "360 / real_of_int totalN \<le> 180"
proof -
  have pos: "0 < real_of_int totalN" and two: "2 \<le> real_of_int totalN"
    using assms by simp_all
  show "0 < 180 / real_of_int totalN"
    using pos by simp
  have "360 \<le> 180 * real_of_int totalN"
    using two by simp
  then show "360 / real_of_int totalN \<le> 180"
    using pos by (simp add: field_simps)
qed

lemma calculateNodePosition_xy:
  assumes "totalN \<noteq> 0"
  shows "\<exists>p. calculateNodePosition index totalN radius = Some p
           \<and> np_x p = 400 + radius * cos (((90 - real_of_int index * (360 / real_of_int totalN)) * pi) / 180)
           \<and> np_y p = 400 - radius * sin (((90 - real_of_int index * (360 / real_of_int totalN)) * pi) / 180)"
  using assms by (simp add: calculateNodePosition_def Let_def)

text \<open>
  C4. For every \<open>totalN \<ge> 1\<close> and every \<open>index\<close> in \<open>[0, totalN)\<close>,
  \<open>calculateNodePosition\<close> returns a point whose Euclidean distance from the centre
  (400, 400) is \<open>radius\<close>; the point sits at the angle \<open>90 - index * (360 / totalN)\<close>
  degrees, with \<open>y\<close> negated for screen coordinates. (Exact arithmetic; the radius is
  a length, so it is not negative.)
\<close>

theorem calculateNodePosition_on_circle:
  assumes "1 \<le> totalN" and "0 \<le> index" and "index < totalN" and "0 \<le> radius"
  shows "\<exists>p. calculateNodePosition index totalN radius = Some p
           \<and> np_x p = 400 + radius * cos (((90 - real_of_int index * (360 / real_of_int totalN)) * pi) / 180)
           \<and> np_y p = 400 - radius * sin (((90 - real_of_int index * (360 / real_of_int totalN)) * pi) / 180)
           \<and> distFromCenter (np_x p) (np_y p) = radius"
proof -
  have nz: "totalN \<noteq> 0"
    using assms(1) by simp
  show ?thesis
    using nz distFromCenter_polar [OF assms(4)]
    by (simp add: calculateNodePosition_def Let_def)
qed

theorem calculateNodePosition_on_circle_witness:
  "(1::int) \<le> 3 \<and> (0::int) \<le> 2 \<and> (2::int) < 3 \<and> (0::real) \<le> 250
   \<and> (\<exists>p. calculateNodePosition 2 3 250 = Some p
           \<and> np_x p = 400 + 250 * cos (((90 - real_of_int 2 * (360 / real_of_int 3)) * pi) / 180)
           \<and> np_y p = 400 - 250 * sin (((90 - real_of_int 2 * (360 / real_of_int 3)) * pi) / 180)
           \<and> distFromCenter (np_x p) (np_y p) = 250)"
  using calculateNodePosition_on_circle [of 3 2 250] by simp

text \<open>
  C1. For every \<open>totalN \<ge> 2\<close> and every \<open>indexBefore\<close> in \<open>[0, totalN)\<close>,
  \<open>calculateAddButtonPosition\<close> returns a point at distance \<open>radius\<close> from the centre
  (400, 400). For the wrap-around pair \<open>indexBefore = totalN - 1\<close> the point sits at
  \<open>90 + 180 / totalN\<close> degrees, strictly between node 0 (at 90 degrees) and node
  \<open>totalN - 1\<close> (at \<open>90 + 360 / totalN\<close> degrees, one full turn above the angle the
  code computes for it), and the arc between these two nodes spans at most 180 degrees:
  it is the shorter arc.
\<close>

theorem calculateAddButtonPosition_on_circle:
  assumes "2 \<le> totalN" and "0 \<le> indexBefore" and "indexBefore < totalN" and "0 \<le> radius"
  shows "distFromCenter (pt_x (calculateAddButtonPosition indexBefore totalN radius))
                        (pt_y (calculateAddButtonPosition indexBefore totalN radius)) = radius
         \<and> (indexBefore = totalN - 1 \<longrightarrow>
              calculateAddButtonPosition indexBefore totalN radius
                = circlePoint radius (90 + 180 / real_of_int totalN)
              \<and> (\<exists>p. calculateNodePosition 0 totalN radius = Some p
                     \<and> \<lparr>pt_x = np_x p, pt_y = np_y p\<rparr> = circlePoint radius 90)
              \<and> (\<exists>p. calculateNodePosition (totalN - 1) totalN radius = Some p
                     \<and> \<lparr>pt_x = np_x p, pt_y = np_y p\<rparr>
                         = circlePoint radius (90 + 360 / real_of_int totalN))
              \<and> 90 < 90 + 180 / real_of_int totalN
              \<and> 90 + 180 / real_of_int totalN < 90 + 360 / real_of_int totalN
              \<and> (90 + 360 / real_of_int totalN) - 90 \<le> 180)"
proof (intro conjI impI)
  have big: "\<not> totalN \<le> 1"
    using assms(1) by simp
  show "distFromCenter (pt_x (calculateAddButtonPosition indexBefore totalN radius))
                       (pt_y (calculateAddButtonPosition indexBefore totalN radius)) = radius"
    using big distFromCenter_polar [OF assms(4)]
    by (simp add: calculateAddButtonPosition_def Let_def)
next
  assume last: "indexBefore = totalN - 1"
  have big: "\<not> totalN \<le> 1"
    using assms(1) by simp
  have before: "90 - real_of_int (totalN - 1) * (360 / real_of_int totalN)
                = (90 + 360 / real_of_int totalN) - 360"
    by (rule node_angle_of_last [OF assms(1)])
  have mid: "(90 - real_of_int (totalN - 1) * (360 / real_of_int totalN) + 360
               + (90 - real_of_int 0 * (360 / real_of_int totalN))) / 2
             = 90 + 180 / real_of_int totalN"
    by (simp only: before) (simp add: field_simps)
  have small: "\<not> 360 \<le> 90 + 180 / real_of_int totalN"
    using half_step_bounds [OF assms(1)] by simp
  have "calculateAddButtonPosition (totalN - 1) totalN radius
          = circlePoint radius (90 + 180 / real_of_int totalN)"
    unfolding calculateAddButtonPosition_def Let_def circlePoint_def
    by (simp only: big if_False if_True refl diff_add_cancel js_rem_self mid small)
  then show "calculateAddButtonPosition indexBefore totalN radius
          = circlePoint radius (90 + 180 / real_of_int totalN)"
    by (simp only: last)
next
  have nz: "totalN \<noteq> 0"
    using assms(1) by simp
  show "\<exists>p. calculateNodePosition 0 totalN radius = Some p
            \<and> \<lparr>pt_x = np_x p, pt_y = np_y p\<rparr> = circlePoint radius 90"
    using nz by (simp add: calculateNodePosition_def Let_def circlePoint_def)
next
  have nz: "totalN \<noteq> 0"
    using assms(1) by simp
  have before: "90 - real_of_int (totalN - 1) * (360 / real_of_int totalN)
                = (90 + 360 / real_of_int totalN) - 360"
    by (rule node_angle_of_last [OF assms(1)])
  obtain p where p: "calculateNodePosition (totalN - 1) totalN radius = Some p"
    and x: "np_x p = 400 + radius * cos (((90 - real_of_int (totalN - 1) * (360 / real_of_int totalN)) * pi) / 180)"
    and y: "np_y p = 400 - radius * sin (((90 - real_of_int (totalN - 1) * (360 / real_of_int totalN)) * pi) / 180)"
    using calculateNodePosition_xy [OF nz] by blast
  have "\<lparr>pt_x = np_x p, pt_y = np_y p\<rparr> = circlePoint radius (90 + 360 / real_of_int totalN)"
    unfolding circlePoint_def
    by (simp only: x y before cos_less_full_turn sin_less_full_turn)
  with p show "\<exists>p. calculateNodePosition (totalN - 1) totalN radius = Some p
            \<and> \<lparr>pt_x = np_x p, pt_y = np_y p\<rparr>
                = circlePoint radius (90 + 360 / real_of_int totalN)"
    by blast
next
  show "90 < 90 + 180 / real_of_int totalN"
    using half_step_bounds(1) [OF assms(1)] by simp
next
  show "90 + 180 / real_of_int totalN < 90 + 360 / real_of_int totalN"
    using assms(1) by (simp add: field_simps)
next
  show "(90 + 360 / real_of_int totalN) - 90 \<le> 180"
    using half_step_bounds(2) [OF assms(1)] by simp
qed

theorem calculateAddButtonPosition_on_circle_witness:
  "(2::int) \<le> 3 \<and> (0::int) \<le> 2 \<and> (2::int) < 3 \<and> (0::real) \<le> 250
   \<and> (2::int) = 3 - 1
   \<and> distFromCenter (pt_x (calculateAddButtonPosition 2 3 250))
                     (pt_y (calculateAddButtonPosition 2 3 250)) = 250
   \<and> calculateAddButtonPosition 2 3 250 = circlePoint 250 (90 + 180 / real_of_int 3)"
proof -
  have t: "distFromCenter (pt_x (calculateAddButtonPosition 2 3 250))
                          (pt_y (calculateAddButtonPosition 2 3 250)) = 250
           \<and> ((2::int) = 3 - 1 \<longrightarrow>
                calculateAddButtonPosition 2 3 250 = circlePoint 250 (90 + 180 / real_of_int 3)
                \<and> (\<exists>p. calculateNodePosition 0 3 250 = Some p
                       \<and> \<lparr>pt_x = np_x p, pt_y = np_y p\<rparr> = circlePoint 250 90)
                \<and> (\<exists>p. calculateNodePosition (3 - 1) 3 250 = Some p
                       \<and> \<lparr>pt_x = np_x p, pt_y = np_y p\<rparr>
                           = circlePoint 250 (90 + 360 / real_of_int 3))
                \<and> (90::real) < 90 + 180 / real_of_int 3
                \<and> 90 + 180 / real_of_int 3 < 90 + 360 / real_of_int 3
                \<and> (90 + 360 / real_of_int 3) - 90 \<le> (180::real))"
    by (rule calculateAddButtonPosition_on_circle) simp_all
  have l: "(2::int) = 3 - 1"
    by simp
  have n: "(2::int) \<le> 3 \<and> (0::int) \<le> 2 \<and> (2::int) < 3 \<and> (0::real) \<le> 250"
    by simp
  from t l
  have a: "distFromCenter (pt_x (calculateAddButtonPosition 2 3 250))
                          (pt_y (calculateAddButtonPosition 2 3 250)) = 250"
    and b: "calculateAddButtonPosition 2 3 250 = circlePoint 250 (90 + 180 / real_of_int 3)"
    by blast+
  from n l a b show ?thesis
    by blast
qed

text \<open>
  C2 as the code has it. For \<open>totalN \<le> 1\<close>, \<open>calculateAddButtonPosition\<close> returns the
  origin (0, 0) of the container, which is not the centre (400, 400) used for node
  placement.
\<close>

theorem calculateAddButtonPosition_degenerate:
  assumes "totalN \<le> 1"
  shows "calculateAddButtonPosition indexBefore totalN radius = \<lparr>pt_x = 0, pt_y = 0\<rparr>"
  using assms by (simp add: calculateAddButtonPosition_def)

theorem calculateAddButtonPosition_degenerate_witness:
  "(1::int) \<le> 1 \<and> calculateAddButtonPosition 0 1 default_radius = \<lparr>pt_x = 0, pt_y = 0\<rparr>"
  using calculateAddButtonPosition_degenerate [of 1 0 default_radius] by simp

theorem calculateAddButtonPosition_degenerate_not_center:
  "calculateAddButtonPosition 0 1 default_radius \<noteq> \<lparr>pt_x = 400, pt_y = 400\<rparr>"
  by (simp add: calculateAddButtonPosition_def)

section \<open>Properties of the list layout and of the node sequence\<close>

lemma max_Max_insert:
  "finite S \<Longrightarrow> max (a::int) (Max (insert b S)) = Max (insert a (insert b S))"
  by simp

lemma Max_insert_max:
  "finite S \<Longrightarrow> Max (insert (max (a::int) b) S) = Max (insert a (insert b S))"
  by (cases "S = {}") (simp_all add: max.assoc)

lemma fold_max_Max: "fold max xs (x::int) = Max (insert x (set xs))"
proof (induction xs arbitrary: x)
  case Nil
  then show ?case by simp
next
  case (Cons y ys)
  have "fold max (y # ys) x = Max (insert (max y x) (set ys))"
    using Cons by simp
  also have "\<dots> = Max (insert y (insert x (set ys)))"
    by (rule Max_insert_max) simp
  also have "\<dots> = Max (insert x (set (y # ys)))"
    by (simp add: insert_commute)
  finally show ?case .
qed

lemma round_to_double_exact: "\<bar>k\<bar> \<le> 2 ^ 53 \<Longrightarrow> round_to_double k = k"
  by (simp add: round_to_double_def Let_def)

lemma js_add_exact:
  "- (2 ^ 53) \<le> a + b \<Longrightarrow> a + b \<le> 2 ^ 53 \<Longrightarrow> js_add a b = a + b"
  unfolding js_add_def by (rule round_to_double_exact) (simp add: abs_le_iff)

lemma id_headroom_iff:
  "id_headroom c ids \<longleftrightarrow> (\<forall>i \<in> insert 0 (set ids). - (2 ^ 53) \<le> i \<and> i + int c \<le> 2 ^ 53)"
  by (simp add: id_headroom_def list_all_iff)

lemma id_headroom_subset:
  assumes "id_headroom c ids" and "c' \<le> c" and "set ids' \<subseteq> insert 0 (set ids)"
  shows "id_headroom c' ids'"
  unfolding id_headroom_iff
proof
  fix i assume "i \<in> insert 0 (set ids')"
  then have "i \<in> insert 0 (set ids)"
    using assms(3) by auto
  then have "- (2 ^ 53) \<le> i" and "i + int c \<le> 2 ^ 53"
    using assms(1) unfolding id_headroom_iff by blast+
  then show "- (2 ^ 53) \<le> i \<and> i + int c' \<le> 2 ^ 53"
    using assms(2) by simp
qed

lemma Max_with_zero_headroom:
  assumes "id_headroom (Suc c) ids"
  shows "- (2 ^ 53) \<le> Max (insert 0 (set ids))"
    and "Max (insert 0 (set ids)) + 1 + int c \<le> 2 ^ 53"
proof -
  have "Max (insert 0 (set ids)) \<in> insert 0 (set ids)"
    by (rule Max_in) simp_all
  then have "- (2 ^ 53) \<le> Max (insert 0 (set ids))
             \<and> Max (insert 0 (set ids)) + int (Suc c) \<le> 2 ^ 53"
    using assms unfolding id_headroom_iff by blast
  then show "- (2 ^ 53) \<le> Max (insert 0 (set ids))"
    and "Max (insert 0 (set ids)) + 1 + int c \<le> 2 ^ 53"
    by simp_all
qed

lemma Max_headroom:
  assumes "id_headroom (Suc c) ids" and "ids \<noteq> []"
  shows "- (2 ^ 53) \<le> Max (set ids)" and "Max (set ids) + 1 + int c \<le> 2 ^ 53"
proof -
  have "Max (set ids) \<in> set ids"
    using assms(2) by (intro Max_in) simp_all
  then have "- (2 ^ 53) \<le> Max (set ids) \<and> Max (set ids) + int (Suc c) \<le> 2 ^ 53"
    using assms(1) unfolding id_headroom_iff by blast
  then show "- (2 ^ 53) \<le> Max (set ids)" and "Max (set ids) + 1 + int c \<le> 2 ^ 53"
    by simp_all
qed

lemma scan_max_with_zero:
  "fold max (tl (ids @ [0])) (hd (ids @ [0])) = Max (insert (0::int) (set ids))"
proof (cases ids)
  case Nil
  then show ?thesis by simp
next
  case (Cons a list)
  have "fold max (list @ [0]) a = Max (insert a (set (list @ [0])))"
    by (rule fold_max_Max)
  also have "\<dots> = Max (insert 0 (set (a # list)))"
    by (simp add: insert_commute)
  finally show ?thesis
    using Cons by simp
qed

lemma handleAddClick_newId_scan:
  "handleAddClick_newId ns
   = (if ns = [] then 1 else js_add (Max (set (map node_id ns))) 1)"
  by (cases ns) (simp_all add: handleAddClick_newId_def fold_max_Max)

lemma handleAddNode_newId_scan:
  "handleAddNode_newId ids = js_add (Max (insert 0 (set ids))) 1"
  by (simp add: handleAddNode_newId_def scan_max_with_zero)

lemma handleAddClick_newId_Max:
  assumes "id_headroom 1 (map node_id ns)"
  shows "handleAddClick_newId ns = (if ns = [] then 1 else Max (set (map node_id ns)) + 1)"
proof (cases "ns = []")
  case True
  then show ?thesis by (simp add: handleAddClick_newId_scan)
next
  case False
  then have "map node_id ns \<noteq> []"
    by simp
  from Max_headroom [OF assms [unfolded One_nat_def] this]
  have "js_add (Max (set (map node_id ns))) 1 = Max (set (map node_id ns)) + 1"
    by (intro js_add_exact) simp_all
  then show ?thesis
    using False by (simp add: handleAddClick_newId_scan)
qed

lemma handleAddNode_newId_Max:
  assumes "id_headroom 1 ids"
  shows "handleAddNode_newId ids = Max (insert 0 (set ids)) + 1"
proof -
  from Max_with_zero_headroom [OF assms [unfolded One_nat_def]]
  have "js_add (Max (insert 0 (set ids))) 1 = Max (insert 0 (set ids)) + 1"
    by (intro js_add_exact) simp_all
  then show ?thesis
    by (simp add: handleAddNode_newId_scan)
qed

lemma splice_insert_in_range:
  "0 \<le> p \<Longrightarrow> p \<le> int (length xs) \<Longrightarrow>
   splice_insert p x xs = take (nat p) xs @ x # drop (nat p) xs"
  by (simp add: splice_insert_def Let_def min_def)

lemma splice_insert_shape:
  "\<exists>k. splice_insert p x xs = take k xs @ x # drop k xs"
  unfolding splice_insert_def Let_def by auto

lemma distinct_map_insert_middle:
  "distinct (map f (as @ x # bs)) \<longleftrightarrow> f x \<notin> f ` set (as @ bs) \<and> distinct (map f (as @ bs))"
  by auto

lemma distinct_map_splice_insert:
  "distinct (map f (splice_insert p x xs)) \<longleftrightarrow> f x \<notin> f ` set xs \<and> distinct (map f xs)"
proof -
  obtain k where k: "splice_insert p x xs = take k xs @ x # drop k xs"
    using splice_insert_shape [of p x xs] by blast
  show ?thesis
    unfolding k distinct_map_insert_middle by simp
qed

text \<open>
  C3 as the code has it. With W = 200, G = 24 and P = 20, for every \<open>nodeCount \<ge> 2\<close> and
  every internal boundary \<open>i\<close> in \<open>[0, nodeCount - 2]\<close>, the add button between slot \<open>i\<close>
  and slot \<open>i + 1\<close> (rendered while the container is hovered and no node is pressed) has
  its \<open>left\<close> at \<open>P + (i + 1) * W + i * G + G / 2 + 6\<close>: six pixels right of the middle
  of the gap. Its click inserts at position \<open>i + 1\<close>, and there are \<open>nodeCount - 1\<close> such
  buttons.
\<close>

theorem betweenColumnAddButtons_left:
  assumes "2 \<le> nodeCount" and "i \<le> nodeCount - 2"
  shows "length (betweenColumnAddButtons True None nodeCount) = nodeCount - 1
         \<and> btn_left (betweenColumnAddButtons True None nodeCount ! i)
             = 20 + (real i + 1) * 200 + real i * 24 + 24 / 2 + 6
         \<and> btn_position (betweenColumnAddButtons True None nodeCount ! i) = int i + 1"
proof -
  have i: "i < nodeCount - 1"
    using assms by simp
  have many: "nodeCount > 1"
    using assms(1) by simp
  show ?thesis
    using i many by (simp add: betweenColumnAddButtons_def Let_def)
qed

theorem betweenColumnAddButtons_left_witness:
  "(2::nat) \<le> 3 \<and> (1::nat) \<le> 3 - 2
   \<and> length (betweenColumnAddButtons True None 3) = 3 - 1
   \<and> btn_left (betweenColumnAddButtons True None 3 ! 1)
       = 20 + (real 1 + 1) * 200 + real 1 * 24 + 24 / 2 + 6
   \<and> btn_position (betweenColumnAddButtons True None 3 ! 1) = int 1 + 1"
  using betweenColumnAddButtons_left [of 3 1] by simp

theorem betweenColumnAddButtons_left_not_gap_centre:
  "btn_left (betweenColumnAddButtons True None 2 ! 0) \<noteq> 20 + (0 + 1) * 200 + 0 * 24 + 24 / 2"
  by (simp add: betweenColumnAddButtons_def)

lemma newId_above_list:
  assumes "id_headroom 1 (map node_id ns)"
  shows "\<forall>n \<in> set ns. node_id n < handleAddClick_newId ns"
proof (cases "ns = []")
  case True
  then show ?thesis by simp
next
  case False
  have "\<forall>n \<in> set ns. node_id n \<le> Max (set (map node_id ns))"
    by simp
  then show ?thesis
    using False by (auto simp: handleAddClick_newId_Max [OF assms] intro: le_less_trans)
qed

lemma newId_above_cycle:
  assumes "id_headroom 1 ids"
  shows "\<forall>i \<in> set ids. i < handleAddNode_newId ids"
proof
  fix i assume "i \<in> set ids"
  then have "i \<le> Max (insert 0 (set ids))"
    by simp
  then show "i < handleAddNode_newId ids"
    by (simp add: handleAddNode_newId_Max [OF assms])
qed

lemma list_newId_headroom:
  assumes "id_headroom (Suc c) (map node_id ns)"
  shows "id_headroom c (handleAddClick_newId ns # map node_id ns)"
proof -
  have one: "id_headroom 1 (map node_id ns)"
    using assms by (rule id_headroom_subset) auto
  have old: "id_headroom c (map node_id ns)"
    using assms by (rule id_headroom_subset) auto
  have new: "- (2 ^ 53) \<le> handleAddClick_newId ns \<and> handleAddClick_newId ns + int c \<le> 2 ^ 53"
  proof (cases "ns = []")
    case True
    have zero: "(0::int) + int (Suc c) \<le> 2 ^ 53"
      using assms unfolding id_headroom_iff by blast
    have "handleAddClick_newId ns = 1"
      using True by (simp add: handleAddClick_newId_scan)
    then show ?thesis
      using zero by simp
  next
    case False
    then have "map node_id ns \<noteq> []"
      by simp
    have "handleAddClick_newId ns = Max (set (map node_id ns)) + 1"
      using False handleAddClick_newId_Max [OF one] by simp
    with Max_headroom [OF assms \<open>map node_id ns \<noteq> []\<close>] show ?thesis
      by simp
  qed
  show ?thesis
    using old new by (simp add: id_headroom_iff)
qed

lemma cycle_newId_headroom:
  assumes "id_headroom (Suc c) ids"
  shows "id_headroom c (handleAddNode_newId ids # ids)"
proof -
  have one: "id_headroom 1 ids"
    using assms by (rule id_headroom_subset) auto
  have old: "id_headroom c ids"
    using assms by (rule id_headroom_subset) auto
  from Max_with_zero_headroom [OF assms]
  have "- (2 ^ 53) \<le> handleAddNode_newId ids \<and> handleAddNode_newId ids + int c \<le> 2 ^ 53"
    by (simp add: handleAddNode_newId_Max [OF one])
  then show ?thesis
    using old by (simp add: id_headroom_iff)
qed

lemma set_splice_insert: "set (splice_insert p x xs) = insert x (set xs)"
proof -
  obtain k where k: "splice_insert p x xs = take k xs @ x # drop k xs"
    using splice_insert_shape [of p x xs] by blast
  have "set (take k xs) \<union> set (drop k xs) = set xs"
    by (metis append_take_drop_id set_append)
  then show ?thesis
    unfolding k by auto
qed

lemma insert_middle_props:
  assumes "k \<le> length xs"
  shows "length (take k xs @ x # drop k xs) = length xs + 1"
    and "(take k xs @ x # drop k xs) ! k = x"
    and "take k (take k xs @ x # drop k xs) @ drop (Suc k) (take k xs @ x # drop k xs) = xs"
  using assms by (simp_all add: nth_append min_def)

text \<open>
  C5 as the code has it. For a sequence of length \<open>n\<close> and a position \<open>p\<close> in \<open>[0, n]\<close>
  (\<open>splice\<close> clamps any other start into this range), both inserts yield a sequence of
  length \<open>n + 1\<close> that holds the new node at index \<open>p\<close> and, once that index is taken out
  again, is the original sequence. When the ids are integers in \<open>[-2^53, 2^53 - 1]\<close>,
  where \<open>+ 1\<close> on doubles is exact, \<open>handleAddClick\<close> gives the new node the id
  \<open>max(existing ids) + 1\<close> (1 for the empty sequence) and \<open>handleAddNode\<close>, which splices at
  \<open>indexToInsertAfter + 1\<close>, gives it \<open>max(0, existing ids) + 1\<close>; either id is then
  strictly greater than every prior id.
\<close>

theorem insert_at_position:
  assumes "0 \<le> p" and "p \<le> int (length (nodes st))"
    and "0 \<le> indexToInsertAfter + 1" and "indexToInsertAfter + 1 \<le> int (length cs)"
  shows "(let ns' = nodes (handleAddClick p st); k = nat p
          in length ns' = length (nodes st) + 1
             \<and> ns' ! k = \<lparr>node_id = handleAddClick_newId (nodes st),
                           node_title = ''Heading 4'', node_body = ''Description'',
                           node_image = DEFAULT_NEW_IMAGE\<rparr>
             \<and> take k ns' @ drop (Suc k) ns' = nodes st
             \<and> (id_headroom 1 (map node_id (nodes st)) \<longrightarrow>
                  node_id (ns' ! k) = (if nodes st = [] then 1
                                       else Max (set (map node_id (nodes st))) + 1)
                  \<and> list_all (\<lambda>n. node_id n < node_id (ns' ! k)) (nodes st)))
         \<and> (let cs' = handleAddNode indexToInsertAfter cs; k = nat (indexToInsertAfter + 1)
            in length cs' = length cs + 1
               \<and> cs' ! k = \<lparr>cn_id = handleAddNode_newId (map cn_id cs),
                             cn_title = ''New Step'', cn_description = ''Add details here''\<rparr>
               \<and> take k cs' @ drop (Suc k) cs' = cs
               \<and> (id_headroom 1 (map cn_id cs) \<longrightarrow>
                    cn_id (cs' ! k) = Max (insert 0 (set (map cn_id cs))) + 1
                    \<and> list_all (\<lambda>n. cn_id n < cn_id (cs' ! k)) cs))"
proof -
  let ?new = "\<lparr>node_id = handleAddClick_newId (nodes st), node_title = ''Heading 4'',
               node_body = ''Description'', node_image = DEFAULT_NEW_IMAGE\<rparr>"
  let ?cnew = "\<lparr>cn_id = handleAddNode_newId (map cn_id cs), cn_title = ''New Step'',
                cn_description = ''Add details here''\<rparr>"
  have kp: "nat p \<le> length (nodes st)" and kc: "nat (indexToInsertAfter + 1) \<le> length cs"
    using assms by simp_all
  have ns': "nodes (handleAddClick p st)
             = take (nat p) (nodes st) @ ?new # drop (nat p) (nodes st)"
    using assms(1,2) by (simp add: handleAddClick_def Let_def splice_insert_in_range)
  have cs': "handleAddNode indexToInsertAfter cs
             = take (nat (indexToInsertAfter + 1)) cs @ ?cnew
               # drop (nat (indexToInsertAfter + 1)) cs"
    using assms(3,4) by (simp add: handleAddNode_def Let_def splice_insert_in_range)
  have sel: "node_id ?new = handleAddClick_newId (nodes st)"
    and csel: "cn_id ?cnew = handleAddNode_newId (map cn_id cs)"
    by simp_all
  have id_list: "id_headroom 1 (map node_id (nodes st)) \<longrightarrow>
                 handleAddClick_newId (nodes st)
                   = (if nodes st = [] then 1 else Max (set (map node_id (nodes st))) + 1)
                 \<and> list_all (\<lambda>n. node_id n < handleAddClick_newId (nodes st)) (nodes st)"
  proof
    assume h: "id_headroom 1 (map node_id (nodes st))"
    have "list_all (\<lambda>n. node_id n < handleAddClick_newId (nodes st)) (nodes st)"
      using newId_above_list [OF h] by (simp add: list_all_iff)
    with handleAddClick_newId_Max [OF h]
    show "handleAddClick_newId (nodes st)
            = (if nodes st = [] then 1 else Max (set (map node_id (nodes st))) + 1)
          \<and> list_all (\<lambda>n. node_id n < handleAddClick_newId (nodes st)) (nodes st)"
      by blast
  qed
  have id_cycle: "id_headroom 1 (map cn_id cs) \<longrightarrow>
                  handleAddNode_newId (map cn_id cs) = Max (insert 0 (set (map cn_id cs))) + 1
                  \<and> list_all (\<lambda>n. cn_id n < handleAddNode_newId (map cn_id cs)) cs"
  proof
    assume h: "id_headroom 1 (map cn_id cs)"
    have "list_all (\<lambda>n. cn_id n < handleAddNode_newId (map cn_id cs)) cs"
      using newId_above_cycle [OF h] by (simp add: list_all_iff)
    with handleAddNode_newId_Max [OF h]
    show "handleAddNode_newId (map cn_id cs) = Max (insert 0 (set (map cn_id cs))) + 1
          \<and> list_all (\<lambda>n. cn_id n < handleAddNode_newId (map cn_id cs)) cs"
      by blast
  qed
  note lp = insert_middle_props [OF kp, of ?new]
  note cp = insert_middle_props [OF kc, of ?cnew]
  have l: "let ns' = nodes (handleAddClick p st); k = nat p
          in length ns' = length (nodes st) + 1
             \<and> ns' ! k = \<lparr>node_id = handleAddClick_newId (nodes st),
                           node_title = ''Heading 4'', node_body = ''Description'',
                           node_image = DEFAULT_NEW_IMAGE\<rparr>
             \<and> take k ns' @ drop (Suc k) ns' = nodes st
             \<and> (id_headroom 1 (map node_id (nodes st)) \<longrightarrow>
                  node_id (ns' ! k) = (if nodes st = [] then 1
                                       else Max (set (map node_id (nodes st))) + 1)
                  \<and> list_all (\<lambda>n. node_id n < node_id (ns' ! k)) (nodes st))"
    unfolding Let_def ns' lp sel
    using id_list by blast
  have c: "let cs' = handleAddNode indexToInsertAfter cs; k = nat (indexToInsertAfter + 1)
            in length cs' = length cs + 1
               \<and> cs' ! k = \<lparr>cn_id = handleAddNode_newId (map cn_id cs),
                             cn_title = ''New Step'', cn_description = ''Add details here''\<rparr>
               \<and> take k cs' @ drop (Suc k) cs' = cs
               \<and> (id_headroom 1 (map cn_id cs) \<longrightarrow>
                    cn_id (cs' ! k) = Max (insert 0 (set (map cn_id cs))) + 1
                    \<and> list_all (\<lambda>n. cn_id n < cn_id (cs' ! k)) cs)"
    unfolding Let_def cs' cp csel
    using id_cycle by blast
  from l c show ?thesis by blast
qed

theorem insert_at_position_witness:
  "(0::int) \<le> 1 \<and> (1::int) \<le> int (length (nodes (initialState App_nodes)))
   \<and> (0::int) \<le> 0 + 1
   \<and> (0::int) + 1 \<le> int (length [\<lparr>cn_id = 1, cn_title = ''Plan'', cn_description = ''''\<rparr>,
                                    \<lparr>cn_id = 2, cn_title = ''Do'', cn_description = ''''\<rparr>])
   \<and> id_headroom 1 (map node_id (nodes (initialState App_nodes)))
   \<and> length (nodes (handleAddClick 1 (initialState App_nodes)))
       = length (nodes (initialState App_nodes)) + 1
   \<and> take (nat 1) (nodes (handleAddClick 1 (initialState App_nodes)))
       @ drop (Suc (nat 1)) (nodes (handleAddClick 1 (initialState App_nodes)))
       = nodes (initialState App_nodes)
   \<and> node_id (nodes (handleAddClick 1 (initialState App_nodes)) ! nat 1)
       = (if nodes (initialState App_nodes) = [] then 1
          else Max (set (map node_id (nodes (initialState App_nodes)))) + 1)
   \<and> list_all (\<lambda>n. node_id n < node_id (nodes (handleAddClick 1 (initialState App_nodes)) ! nat 1))
        (nodes (initialState App_nodes))"
proof -
  let ?cs = "[\<lparr>cn_id = 1, cn_title = ''Plan'', cn_description = ''''\<rparr>,
              \<lparr>cn_id = 2, cn_title = ''Do'', cn_description = ''''\<rparr>]"
  have h1: "(0::int) \<le> 1" by simp
  have h2: "(1::int) \<le> int (length (nodes (initialState App_nodes)))"
    by (simp add: initialState_def App_nodes_def)
  have h3: "(0::int) \<le> 0 + 1" by simp
  have h4: "(0::int) + 1 \<le> int (length ?cs)" by simp
  have h5: "id_headroom 1 (map node_id (nodes (initialState App_nodes)))"
    by (simp add: id_headroom_def initialState_def App_nodes_def)
  from insert_at_position [OF h1 h2 h3 h4, unfolded Let_def] h1 h2 h3 h4 h5 show ?thesis
    by blast
qed

theorem handleAddNode_id_not_max_plus_one:
  "cn_id (handleAddNode 0 [\<lparr>cn_id = - 5, cn_title = ''Plan'', cn_description = ''''\<rparr>] ! 1)
   \<noteq> Max (set (map cn_id [\<lparr>cn_id = - 5, cn_title = ''Plan'', cn_description = ''''\<rparr>])) + 1
   \<and> cn_id (handleAddNode 0 [\<lparr>cn_id = - 5, cn_title = ''Plan'', cn_description = ''''\<rparr>] ! 1) = 1
   \<and> length (nodes (handleAddClick 7 (initialState App_nodes))) = 4
   \<and> map node_id (nodes (handleAddClick 7 (initialState App_nodes))) = [1, 2, 3, 4]
   \<and> map cn_id (handleAddNode 0 [\<lparr>cn_id = 9007199254740992, cn_title = ''Plan'',
                                   cn_description = ''''\<rparr>])
       = [9007199254740992, 9007199254740992]"
  by (simp add: handleAddNode_def handleAddNode_newId_def splice_insert_def
                handleAddClick_def handleAddClick_newId_def initialState_def App_nodes_def
                js_add_def round_to_double_def Let_def bit_length.simps)

lemma findIndex_range: "- 1 \<le> findIndex P xs \<and> findIndex P xs < int (length xs)"
  by (induction xs) (auto simp: Let_def)

lemma findIndex_absent: "findIndex P xs < 0 \<longleftrightarrow> (\<forall>x \<in> set xs. \<not> P x)"
  using findIndex_range by (induction xs) (auto simp: Let_def)

lemma distinct_map_swap:
  assumes "i < length xs" and "j < length xs"
  shows "distinct (map f (xs[i := xs ! j, j := xs ! i])) = distinct (map f xs)"
proof -
  have "distinct ((map f xs)[i := map f xs ! j, j := map f xs ! i]) = distinct (map f xs)"
    by (rule distinct_swap) (simp_all add: assms)
  then show ?thesis
    using assms by (simp add: map_update)
qed

lemma ids_of_field_update:
  "map node_id (map (\<lambda>node. if node_id node = nodeId then upd node else node) ns) = map node_id ns"
  if "\<And>node. node_id (upd node) = node_id node"
  using that by (induction ns) auto

lemma handleMoveLeft_distinct:
  "distinct (map node_id (nodes (handleMoveLeft nodeId st))) = distinct (map node_id (nodes st))"
proof -
  let ?i = "findIndex (\<lambda>node. node_id node = nodeId) (nodes st)"
  show ?thesis
  proof (cases "?i > 0")
    case True
    then have "nat ?i < length (nodes st)" and "nat ?i - 1 < length (nodes st)"
      using findIndex_range [of "\<lambda>node. node_id node = nodeId" "nodes st"] by simp_all
    then show ?thesis
      using True by (simp add: handleMoveLeft_def Let_def distinct_map_swap)
  next
    case False
    then show ?thesis by (simp add: handleMoveLeft_def Let_def)
  qed
qed

lemma handleMoveRight_distinct:
  assumes "handleMoveRight nodeId st = Inr st'"
  shows "distinct (map node_id (nodes st')) = distinct (map node_id (nodes st))"
proof -
  let ?i = "findIndex (\<lambda>node. node_id node = nodeId) (nodes st)"
  show ?thesis
  proof (cases "?i < int (length (nodes st)) - 1")
    case True
    with assms have nonneg: "\<not> ?i < 0"
      by (auto simp: handleMoveRight_def Let_def split: if_splits)
    then have "nat ?i < length (nodes st)" and "nat ?i + 1 < length (nodes st)"
      using True by simp_all
    then have "distinct (map node_id ((nodes st)[nat ?i := nodes st ! (nat ?i + 1),
                   nat ?i + 1 := nodes st ! nat ?i])) = distinct (map node_id (nodes st))"
      by (rule distinct_map_swap)
    then show ?thesis
      using assms True nonneg by (auto simp: handleMoveRight_def Let_def)
  next
    case False
    then show ?thesis using assms by (simp add: handleMoveRight_def Let_def)
  qed
qed

lemma handleMoveRight_present:
  assumes "nodeId \<in> set (map node_id (nodes st))"
  shows "\<exists>st'. handleMoveRight nodeId st = Inr st'"
proof -
  have "\<not> findIndex (\<lambda>node. node_id node = nodeId) (nodes st) < 0"
    using assms by (auto simp: findIndex_absent)
  then show ?thesis
    by (simp add: handleMoveRight_def Let_def)
qed

lemma handleAddClick_ids:
  "set (map node_id (nodes (handleAddClick p st)))
   = insert (handleAddClick_newId (nodes st)) (set (map node_id (nodes st)))"
  by (simp add: handleAddClick_def Let_def set_splice_insert)

lemma handleAddNode_ids:
  "set (map cn_id (handleAddNode i cs))
   = insert (handleAddNode_newId (map cn_id cs)) (set (map cn_id cs))"
  by (simp add: handleAddNode_def Let_def set_splice_insert)

lemma handleAddClick_step:
  assumes "distinct (map node_id (nodes st))"
    and "id_headroom (Suc c) (map node_id (nodes st))"
  shows "distinct (map node_id (nodes (handleAddClick p st)))"
    and "id_headroom c (map node_id (nodes (handleAddClick p st)))"
proof -
  have one: "id_headroom 1 (map node_id (nodes st))"
    using assms(2) by (rule id_headroom_subset) auto
  show "distinct (map node_id (nodes (handleAddClick p st)))"
    using newId_above_list [OF one] assms(1)
    by (auto simp: handleAddClick_def Let_def distinct_map_splice_insert)
  have sub: "set (map node_id (nodes (handleAddClick p st)))
             \<subseteq> insert 0 (set (handleAddClick_newId (nodes st) # map node_id (nodes st)))"
    unfolding handleAddClick_ids by auto
  show "id_headroom c (map node_id (nodes (handleAddClick p st)))"
    using list_newId_headroom [OF assms(2)] le_refl sub by (rule id_headroom_subset)
qed

lemma handleAddNode_step:
  assumes "distinct (map cn_id cs)" and "id_headroom (Suc c) (map cn_id cs)"
  shows "distinct (map cn_id (handleAddNode i cs))"
    and "id_headroom c (map cn_id (handleAddNode i cs))"
proof -
  have one: "id_headroom 1 (map cn_id cs)"
    using assms(2) by (rule id_headroom_subset) auto
  show "distinct (map cn_id (handleAddNode i cs))"
    using newId_above_cycle [OF one] assms(1)
    by (auto simp: handleAddNode_def Let_def distinct_map_splice_insert)
  have sub: "set (map cn_id (handleAddNode i cs))
             \<subseteq> insert 0 (set (handleAddNode_newId (map cn_id cs) # map cn_id cs))"
    unfolding handleAddNode_ids by auto
  show "id_headroom c (map cn_id (handleAddNode i cs))"
    using cycle_newId_headroom [OF assms(2)] le_refl sub by (rule id_headroom_subset)
qed

lemma set_map_swap:
  assumes "i < length xs" and "j < length xs"
  shows "set (map f (xs[i := xs ! j, j := xs ! i])) = set (map f xs)"
proof -
  have "set (xs[i := xs ! j, j := xs ! i]) = set xs"
    using assms by (simp add: set_swap)
  then show ?thesis
    by simp
qed

lemma handleMoveLeft_ids:
  "set (map node_id (nodes (handleMoveLeft nodeId st))) = set (map node_id (nodes st))"
proof -
  let ?i = "findIndex (\<lambda>node. node_id node = nodeId) (nodes st)"
  show ?thesis
  proof (cases "?i > 0")
    case True
    then have "nat ?i < length (nodes st)" and "nat ?i - 1 < length (nodes st)"
      using findIndex_range [of "\<lambda>node. node_id node = nodeId" "nodes st"] by simp_all
    then have "set (map node_id ((nodes st)[nat ?i := nodes st ! (nat ?i - 1),
                 nat ?i - 1 := nodes st ! nat ?i])) = set (map node_id (nodes st))"
      by (rule set_map_swap)
    then show ?thesis
      using True by (simp add: handleMoveLeft_def Let_def)
  next
    case False
    then show ?thesis by (simp add: handleMoveLeft_def Let_def)
  qed
qed

lemma handleMoveRight_ids:
  assumes "handleMoveRight nodeId st = Inr st'"
  shows "set (map node_id (nodes st')) = set (map node_id (nodes st))"
proof -
  let ?i = "findIndex (\<lambda>node. node_id node = nodeId) (nodes st)"
  show ?thesis
  proof (cases "?i < int (length (nodes st)) - 1")
    case True
    with assms have nonneg: "\<not> ?i < 0"
      by (auto simp: handleMoveRight_def Let_def split: if_splits)
    then have "nat ?i < length (nodes st)" and "nat ?i + 1 < length (nodes st)"
      using True by simp_all
    then have "set (map node_id ((nodes st)[nat ?i := nodes st ! (nat ?i + 1),
                   nat ?i + 1 := nodes st ! nat ?i])) = set (map node_id (nodes st))"
      by (rule set_map_swap)
    then show ?thesis
      using assms True nonneg by (auto simp: handleMoveRight_def Let_def)
  next
    case False
    then show ?thesis using assms by (simp add: handleMoveRight_def Let_def)
  qed
qed

lemma handleDeleteNode_ids:
  "set (map node_id (nodes (handleDeleteNode nodeId st))) \<subseteq> set (map node_id (nodes st))"
  by (auto simp: handleDeleteNode_def Let_def)

lemma handleDeleteNode_distinct:
  "distinct (map node_id (nodes st)) \<Longrightarrow> distinct (map node_id (nodes (handleDeleteNode nodeId st)))"
  by (simp add: handleDeleteNode_def Let_def distinct_map_filter)

lemma handleTitleChange_ids:
  "map node_id (nodes (handleTitleChange nodeId t st)) = map node_id (nodes st)"
  by (simp add: handleTitleChange_def ids_of_field_update)

lemma handleBodyChange_ids:
  "map node_id (nodes (handleBodyChange nodeId b st)) = map node_id (nodes st)"
  by (simp add: handleBodyChange_def ids_of_field_update)

lemma handleFileSelection_ids:
  "map node_id (nodes (handleFileSelection rs nodeId f st)) = map node_id (nodes st)"
  by (simp add: handleFileSelection_def ids_of_field_update split: option.splits)

lemma handlePictureSourceSelect_nodes:
  "nodes (fst (handlePictureSourceSelect nodeId source st)) = nodes st"
  by (simp add: handlePictureSourceSelect_def Let_def split: option.splits)

lemma handlePictureSourceSelect_settled_ids:
  "map node_id (nodes (handlePictureSourceSelect_settled nodeId settled st)) = map node_id (nodes st)"
  by (simp add: handlePictureSourceSelect_settled_def Let_def ids_of_field_update split: sum.splits)

lemma handleClickOutside_nodes: "nodes (handleClickOutside target st) = nodes st"
  by (simp add: handleClickOutside_def Let_def)

lemma apply_op_distinct:
  assumes "apply_op op st = Inr st'" and "distinct (map node_id (nodes st))"
    and "\<not> is_insert op"
  shows "distinct (map node_id (nodes st'))"
proof (cases op)
  case (AddClick p)
  then show ?thesis using assms by simp
next
  case (TitleChange i t)
  then show ?thesis using assms by (auto simp: handleTitleChange_ids)
next
  case (BodyChange i b)
  then show ?thesis using assms by (auto simp: handleBodyChange_ids)
next
  case (MoveLeft i)
  then show ?thesis using assms handleMoveLeft_distinct by auto
next
  case (MoveRight i)
  then show ?thesis using assms handleMoveRight_distinct by auto
next
  case (DeleteNode i)
  then show ?thesis using assms handleDeleteNode_distinct by auto
next
  case (FileSelection rs i f)
  then show ?thesis using assms by (auto simp: handleFileSelection_ids)
next
  case (PictureSourceSelect i s)
  then show ?thesis using assms by (auto simp: handlePictureSourceSelect_nodes)
next
  case (ImageSettled i r)
  then show ?thesis using assms by (auto simp: handlePictureSourceSelect_settled_ids)
next
  case (ClickOutside t)
  then show ?thesis using assms by (auto simp: handleClickOutside_nodes)
qed

lemma apply_op_ids:
  assumes "apply_op op st = Inr st'" and "\<not> is_insert op"
  shows "set (map node_id (nodes st')) \<subseteq> set (map node_id (nodes st))"
proof (cases op)
  case (AddClick p)
  then show ?thesis using assms by simp
next
  case (TitleChange i t)
  then show ?thesis using assms handleTitleChange_ids [of i t st] by auto
next
  case (BodyChange i b)
  then show ?thesis using assms handleBodyChange_ids [of i b st] by auto
next
  case (MoveLeft i)
  then show ?thesis using assms handleMoveLeft_ids [of i st] by auto
next
  case (MoveRight i)
  then show ?thesis using assms handleMoveRight_ids [of i st st'] by auto
next
  case (DeleteNode i)
  then show ?thesis using assms handleDeleteNode_ids [of i st] by auto
next
  case (FileSelection rs i f)
  then show ?thesis using assms handleFileSelection_ids [of rs i f st] by auto
next
  case (PictureSourceSelect i s)
  then show ?thesis using assms by (auto simp: handlePictureSourceSelect_nodes)
next
  case (ImageSettled i r)
  then show ?thesis using assms handlePictureSourceSelect_settled_ids [of i r st] by auto
next
  case (ClickOutside t)
  then show ?thesis using assms by (auto simp: handleClickOutside_nodes)
qed

lemma apply_op_step:
  assumes "apply_op op st = Inr st'"
    and "distinct (map node_id (nodes st))"
    and "id_headroom (count_inserts (op # ops)) (map node_id (nodes st))"
  shows "distinct (map node_id (nodes st'))"
    and "id_headroom (count_inserts ops) (map node_id (nodes st'))"
proof -
  have "distinct (map node_id (nodes st'))
        \<and> id_headroom (count_inserts ops) (map node_id (nodes st'))"
  proof (cases "is_insert op")
    case True
    then obtain p where op: "op = AddClick p"
      by (cases op) simp_all
    have room: "id_headroom (Suc (count_inserts ops)) (map node_id (nodes st))"
      using assms(3) by (simp add: op count_inserts_def)
    have st': "st' = handleAddClick p st"
      using assms(1) by (simp add: op)
    show ?thesis
      unfolding st' using handleAddClick_step [OF assms(2) room] by blast
  next
    case False
    have room: "id_headroom (count_inserts ops) (map node_id (nodes st))"
      using assms(3) False by (simp add: count_inserts_def)
    have sub: "set (map node_id (nodes st')) \<subseteq> set (map node_id (nodes st))"
      using assms(1) False by (rule apply_op_ids)
    have "id_headroom (count_inserts ops) (map node_id (nodes st'))"
      using room by (rule id_headroom_subset) (use sub in auto)
    moreover have "distinct (map node_id (nodes st'))"
      using assms(1,2) False by (rule apply_op_distinct)
    ultimately show ?thesis by blast
  qed
  then show "distinct (map node_id (nodes st'))"
    and "id_headroom (count_inserts ops) (map node_id (nodes st'))"
    by blast+
qed

lemma apply_op_from_toolbar:
  "from_toolbar op st \<Longrightarrow> \<exists>st'. apply_op op st = Inr st'"
  using handleMoveRight_present by (cases op) auto

lemma run_ops_distinct:
  "run_ops ops st = Inr st' \<Longrightarrow> distinct (map node_id (nodes st))
   \<Longrightarrow> id_headroom (count_inserts ops) (map node_id (nodes st))
   \<Longrightarrow> distinct (map node_id (nodes st'))"
proof (induction ops arbitrary: st)
  case Nil
  then show ?case by simp
next
  case (Cons op ops)
  then obtain st1 where st1: "apply_op op st = Inr st1" and rest: "run_ops ops st1 = Inr st'"
    by (auto split: sum.splits)
  note step = apply_op_step [OF st1 Cons.prems(2) Cons.prems(3)]
  from rest step show ?case
    by (rule Cons.IH)
qed

lemma run_ops_from_toolbar:
  "all_from_toolbar ops st \<Longrightarrow> \<exists>st'. run_ops ops st = Inr st'"
proof (induction ops arbitrary: st)
  case Nil
  then show ?case by simp
next
  case (Cons op ops)
  then obtain st1 where st1: "apply_op op st = Inr st1"
    using apply_op_from_toolbar by fastforce
  with Cons.prems have "all_from_toolbar ops st1"
    by simp
  then have "\<exists>st'. run_ops ops st1 = Inr st'"
    by (rule Cons.IH)
  with st1 show ?case
    by simp
qed

lemma fold_handleAddNode_distinct:
  "distinct (map cn_id cs) \<Longrightarrow> id_headroom (length inserts) (map cn_id cs)
   \<Longrightarrow> distinct (map cn_id (fold handleAddNode inserts cs))"
proof (induction inserts arbitrary: cs)
  case Nil
  then show ?case by simp
next
  case (Cons i inserts)
  have room: "id_headroom (Suc (length inserts)) (map cn_id cs)"
    using Cons.prems(2) by simp
  note step = handleAddNode_step [OF Cons.prems(1) room, of i]
  have "distinct (map cn_id (fold handleAddNode inserts (handleAddNode i cs)))"
    using step by (rule Cons.IH)
  then show ?case by simp
qed

text \<open>
  C7 as the code has it. Ids are doubles and a fresh id is \<open>max + 1\<close> rounded to a double.
  From a node sequence with pairwise distinct integer ids that leave room for the inserts
  to come (every id, and 0, is at least \<open>-2^53\<close> and stays at most \<open>2^53\<close> when the number of
  inserts is added), every sequence of operations (insert, title and body update, move
  left and right, delete, image update from a file or from a settled generation, and the
  handlers that leave the nodes alone) that yields a state yields one whose ids are
  pairwise distinct, and a sequence of operations that comes from the rendered interface
  always yields a state. The fresh id of the next insert is not among the existing ids.
  The same holds for any number of inserts into a cycle.
\<close>

theorem ids_stay_distinct:
  assumes "distinct (map node_id (nodes st))"
    and "id_headroom (count_inserts ops) (map node_id (nodes st))"
    and "distinct (map cn_id cs)"
    and "id_headroom (length inserts) (map cn_id cs)"
  shows "(\<forall>st'. run_ops ops st = Inr st' \<longrightarrow> distinct (map node_id (nodes st')))
         \<and> (all_from_toolbar ops st \<longrightarrow> (\<exists>st'. run_ops ops st = Inr st'))
         \<and> (0 < count_inserts ops \<longrightarrow>
              handleAddClick_newId (nodes st) \<notin> set (map node_id (nodes st)))
         \<and> distinct (map cn_id (fold handleAddNode inserts cs))
         \<and> (0 < length inserts \<longrightarrow>
              handleAddNode_newId (map cn_id cs) \<notin> set (map cn_id cs))"
proof (intro conjI allI impI)
  fix st' assume "run_ops ops st = Inr st'"
  then show "distinct (map node_id (nodes st'))"
    using assms(1,2) by (rule run_ops_distinct)
next
  assume "all_from_toolbar ops st"
  then show "\<exists>st'. run_ops ops st = Inr st'"
    by (rule run_ops_from_toolbar)
next
  assume "0 < count_inserts ops"
  then have "1 \<le> count_inserts ops"
    by simp
  with assms(2) have "id_headroom 1 (map node_id (nodes st))"
    by (rule id_headroom_subset) auto
  then show "handleAddClick_newId (nodes st) \<notin> set (map node_id (nodes st))"
    using newId_above_list [of "nodes st"] by auto
next
  show "distinct (map cn_id (fold handleAddNode inserts cs))"
    using assms(3,4) by (rule fold_handleAddNode_distinct)
next
  assume "0 < length inserts"
  then have "1 \<le> length inserts"
    by (cases inserts) simp_all
  with assms(4) have "id_headroom 1 (map cn_id cs)"
    by (rule id_headroom_subset) auto
  then show "handleAddNode_newId (map cn_id cs) \<notin> set (map cn_id cs)"
    using newId_above_cycle [of "map cn_id cs"] by auto
qed

theorem ids_stay_distinct_witness:
  "distinct (map node_id (nodes (initialState App_nodes)))
   \<and> id_headroom (count_inserts [AddClick 1, MoveRight 4, DeleteNode 1, TitleChange 3 ''Owls'',
                                  MoveLeft 2])
        (map node_id (nodes (initialState App_nodes)))
   \<and> distinct (map cn_id [\<lparr>cn_id = 1, cn_title = ''Plan'', cn_description = ''''\<rparr>,
                           \<lparr>cn_id = 2, cn_title = ''Do'', cn_description = ''''\<rparr>])
   \<and> id_headroom (length [0, 2, 1::int])
        (map cn_id [\<lparr>cn_id = 1, cn_title = ''Plan'', cn_description = ''''\<rparr>,
                    \<lparr>cn_id = 2, cn_title = ''Do'', cn_description = ''''\<rparr>])
   \<and> all_from_toolbar [AddClick 1, MoveRight 4, DeleteNode 1, TitleChange 3 ''Owls'', MoveLeft 2]
        (initialState App_nodes)
   \<and> 0 < count_inserts [AddClick 1, MoveRight 4, DeleteNode 1, TitleChange 3 ''Owls'', MoveLeft 2]
   \<and> (\<exists>st'. run_ops [AddClick 1, MoveRight 4, DeleteNode 1, TitleChange 3 ''Owls'', MoveLeft 2]
               (initialState App_nodes) = Inr st'
             \<and> distinct (map node_id (nodes st')))
   \<and> handleAddClick_newId (nodes (initialState App_nodes))
       \<notin> set (map node_id (nodes (initialState App_nodes)))
   \<and> distinct (map cn_id (fold handleAddNode [0, 2, 1]
                   [\<lparr>cn_id = 1, cn_title = ''Plan'', cn_description = ''''\<rparr>,
                    \<lparr>cn_id = 2, cn_title = ''Do'', cn_description = ''''\<rparr>]))"
proof -
  let ?ops = "[AddClick 1, MoveRight 4, DeleteNode 1, TitleChange 3 ''Owls'', MoveLeft 2]"
  let ?cs = "[\<lparr>cn_id = 1, cn_title = ''Plan'', cn_description = ''''\<rparr>,
              \<lparr>cn_id = 2, cn_title = ''Do'', cn_description = ''''\<rparr>]"
  have d1: "distinct (map node_id (nodes (initialState App_nodes)))"
    by (simp add: initialState_def App_nodes_def)
  have r1: "id_headroom (count_inserts ?ops) (map node_id (nodes (initialState App_nodes)))"
    by (simp add: id_headroom_def count_inserts_def initialState_def App_nodes_def)
  have d2: "distinct (map cn_id ?cs)"
    by simp
  have r2: "id_headroom (length [0, 2, 1::int]) (map cn_id ?cs)"
    by (simp add: id_headroom_def)
  have tb: "all_from_toolbar ?ops (initialState App_nodes)"
    by code_simp
  have n: "0 < count_inserts ?ops"
    by (simp add: count_inserts_def)
  from ids_stay_distinct [OF d1 r1 d2 r2] d1 r1 d2 r2 tb n show ?thesis
    by blast
qed

theorem insert_at_two_to_the_53_repeats_id:
  "distinct (map node_id (nodes (initialState
      [\<lparr>node_id = 9007199254740992, node_title = ''Dogs'', node_body = '''',
        node_image = ''''\<rparr>])))
   \<and> (9007199254740992::int) = 2 ^ 53
   \<and> handleAddClick_newId
        [\<lparr>node_id = 9007199254740992, node_title = ''Dogs'', node_body = '''',
          node_image = ''''\<rparr>] = 9007199254740992
   \<and> (case run_ops [AddClick 1] (initialState
            [\<lparr>node_id = 9007199254740992, node_title = ''Dogs'', node_body = '''',
              node_image = ''''\<rparr>]) of
         Inl c \<Rightarrow> False
       | Inr st' \<Rightarrow> map node_id (nodes st') = [9007199254740992, 9007199254740992]
                    \<and> \<not> distinct (map node_id (nodes st')))
   \<and> \<not> distinct (map cn_id (fold handleAddNode [0]
            [\<lparr>cn_id = 9007199254740992, cn_title = ''Plan'', cn_description = ''''\<rparr>]))"
  by (simp add: handleAddNode_def handleAddNode_newId_def splice_insert_def
                handleAddClick_def handleAddClick_newId_def initialState_def
                js_add_def round_to_double_def Let_def bit_length.simps)

text \<open>
  C6 as the code has it. \<open>handleDeleteNode\<close> with an id that no node carries leaves the
  node sequence unchanged; in a sequence of two or more nodes it still clears the pressed
  node and both editing states, so it is not a no-op there. With at most one node the
  handler returns at once: the whole state is unchanged and no message is shown.
\<close>

theorem handleDeleteNode_rejected:
  "(nodeId \<notin> set (map node_id (nodes st)) \<longrightarrow>
      nodes (handleDeleteNode nodeId st) = nodes st
      \<and> handleDeleteNode nodeId st
          = (if length (nodes st) \<le> 1 then st
             else st\<lparr>pressedNode := None, editingTitle := None, editingBody := None\<rparr>))
   \<and> (length (nodes st) \<le> 1 \<longrightarrow> handleDeleteNode nodeId st = st)"
proof (intro conjI impI)
  assume absent: "nodeId \<notin> set (map node_id (nodes st))"
  then have same: "filter (\<lambda>node. node_id node \<noteq> nodeId) (nodes st) = nodes st"
    by (auto simp: filter_id_conv)
  then show "nodes (handleDeleteNode nodeId st) = nodes st"
    by (simp add: handleDeleteNode_def Let_def)
  show "handleDeleteNode nodeId st
          = (if length (nodes st) \<le> 1 then st
             else st\<lparr>pressedNode := None, editingTitle := None, editingBody := None\<rparr>)"
    using same by (simp add: handleDeleteNode_def Let_def)
next
  assume "length (nodes st) \<le> 1"
  then show "handleDeleteNode nodeId st = st"
    by (simp add: handleDeleteNode_def)
qed

theorem handleDeleteNode_rejected_witness:
  "(99::int) \<notin> set (map node_id (nodes (initialState App_nodes)))
   \<and> nodes (handleDeleteNode 99 (initialState App_nodes)) = nodes (initialState App_nodes)
   \<and> length (nodes (initialState (take 1 App_nodes))) \<le> 1
   \<and> handleDeleteNode 1 (initialState (take 1 App_nodes)) = initialState (take 1 App_nodes)"
proof -
  have a: "(99::int) \<notin> set (map node_id (nodes (initialState App_nodes)))"
    by (simp add: initialState_def App_nodes_def)
  have b: "length (nodes (initialState (take 1 App_nodes))) \<le> 1"
    by (simp add: initialState_def)
  from handleDeleteNode_rejected [of 99 "initialState App_nodes"]
       handleDeleteNode_rejected [of 1 "initialState (take 1 App_nodes)"] a b
  show ?thesis by blast
qed

theorem handleDeleteNode_absent_id_clears_pressed:
  "99 \<notin> set (map node_id (nodes ((initialState App_nodes)\<lparr>pressedNode := Some 1\<rparr>)))
   \<and> handleDeleteNode 99 ((initialState App_nodes)\<lparr>pressedNode := Some 1\<rparr>)
       \<noteq> (initialState App_nodes)\<lparr>pressedNode := Some 1\<rparr>
   \<and> pressedNode (handleDeleteNode 99 ((initialState App_nodes)\<lparr>pressedNode := Some 1\<rparr>)) = None"
  by (simp add: handleDeleteNode_def initialState_def App_nodes_def)

text \<open>
  C8. A pointer-down outside the container: when no image-source menu is open, the
  hovered node, the pressed node, both editing states and the active flag of the
  container are reset; when a menu is open (and the pointer is neither on the menu nor on
  an insert button, both part of the diagram), only the menu-open state and the stored
  button rectangle are cleared and the other interaction state stays as it was.
\<close>

theorem handleClickOutside_outside:
  "(insertPictureMenuOpen st = None \<and> \<not> insideContainer target \<longrightarrow>
      hoveredNode (handleClickOutside target st) = None
      \<and> pressedNode (handleClickOutside target st) = None
      \<and> editingTitle (handleClickOutside target st) = None
      \<and> editingBody (handleClickOutside target st) = None
      \<and> containerActive (handleClickOutside target st) = False
      \<and> insertPictureMenuOpen (handleClickOutside target st) = None)
   \<and> (insertPictureMenuOpen st \<noteq> None \<and> \<not> insideContainer target
        \<and> \<not> closestInsertButton target \<and> \<not> insideMenu target \<longrightarrow>
      handleClickOutside target st = st\<lparr>insertPictureMenuOpen := None, buttonRect := None\<rparr>
      \<and> insertPictureMenuOpen (handleClickOutside target st) = None
      \<and> hoveredNode (handleClickOutside target st) = hoveredNode st
      \<and> pressedNode (handleClickOutside target st) = pressedNode st
      \<and> editingTitle (handleClickOutside target st) = editingTitle st
      \<and> editingBody (handleClickOutside target st) = editingBody st
      \<and> containerActive (handleClickOutside target st) = containerActive st)"
  by (simp add: handleClickOutside_def Let_def)

theorem handleClickOutside_outside_witness:
  "insertPictureMenuOpen ((initialState App_nodes)\<lparr>pressedNode := Some 1, editingTitle := Some 1,
                                                  hoveredNode := Some 2\<rparr>) = None
   \<and> \<not> insideContainer \<lparr>closestInsertButton = False, insideMenu = False, insideContainer = False\<rparr>
   \<and> pressedNode (handleClickOutside
         \<lparr>closestInsertButton = False, insideMenu = False, insideContainer = False\<rparr>
         ((initialState App_nodes)\<lparr>pressedNode := Some 1, editingTitle := Some 1,
                                   hoveredNode := Some 2\<rparr>)) = None
   \<and> insertPictureMenuOpen ((initialState App_nodes)\<lparr>hoveredNode := Some 2,
                                                      insertPictureMenuOpen := Some 2\<rparr>) \<noteq> None
   \<and> \<not> closestInsertButton \<lparr>closestInsertButton = False, insideMenu = False, insideContainer = False\<rparr>
   \<and> \<not> insideMenu \<lparr>closestInsertButton = False, insideMenu = False, insideContainer = False\<rparr>
   \<and> hoveredNode (handleClickOutside
         \<lparr>closestInsertButton = False, insideMenu = False, insideContainer = False\<rparr>
         ((initialState App_nodes)\<lparr>hoveredNode := Some 2, insertPictureMenuOpen := Some 2\<rparr>))
       = hoveredNode ((initialState App_nodes)\<lparr>hoveredNode := Some 2,
                                                insertPictureMenuOpen := Some 2\<rparr>)
   \<and> insertPictureMenuOpen (handleClickOutside
         \<lparr>closestInsertButton = False, insideMenu = False, insideContainer = False\<rparr>
         ((initialState App_nodes)\<lparr>hoveredNode := Some 2, insertPictureMenuOpen := Some 2\<rparr>))
       = None"
proof -
  let ?t = "\<lparr>closestInsertButton = False, insideMenu = False, insideContainer = False\<rparr>"
  let ?s1 = "(initialState App_nodes)\<lparr>pressedNode := Some 1, editingTitle := Some 1,
                                      hoveredNode := Some 2\<rparr>"
  let ?s2 = "(initialState App_nodes)\<lparr>hoveredNode := Some 2, insertPictureMenuOpen := Some 2\<rparr>"
  have a: "insertPictureMenuOpen ?s1 = None"
    by (simp add: initialState_def)
  have b: "\<not> insideContainer ?t" "\<not> closestInsertButton ?t" "\<not> insideMenu ?t"
    by simp_all
  have c: "insertPictureMenuOpen ?s2 \<noteq> None"
    by simp
  from handleClickOutside_outside [of ?s1 ?t] handleClickOutside_outside [of ?s2 ?t] a b c
  show ?thesis by blast
qed

lemma list_all2_map_self:
  "list_all2 P xs (map f xs) \<longleftrightarrow> (\<forall>x \<in> set xs. P x (f x))"
  by (induction xs) auto

lemma generateImageForTitle_failed:
  assumes "request_failed (unsplash title)"
  shows "\<exists>error. generateImageForTitle unsplash title = Inl error"
  using assms
  by (auto simp: request_failed_def generateImageForTitle_def
           split: fetch_outcome.splits sum.splits)

text \<open>
  C9. When the request of the "Generate with AI" path fails (the fetch rejects, or the
  response is not ok), then in the state after \<open>handlePictureSourceSelect\<close> has settled
  every node with the target id has \<open>FALLBACK_IMAGE\<close> as its image and its id, title and
  body as before, every other node is as before, no node is marked as generating, and
  one more message, "Failed to generate image: ... Please try again.", has been shown.
\<close>

theorem generate_failure_falls_back:
  assumes "request_failed (unsplash title)"
  shows "list_all2 (\<lambda>node node'.
                      node_id node' = node_id node
                      \<and> node_title node' = node_title node
                      \<and> node_body node' = node_body node
                      \<and> node_image node' = (if node_id node = targetNodeId then FALLBACK_IMAGE
                                             else node_image node))
           (nodes st)
           (nodes (handlePictureSourceSelect_settled targetNodeId
                     (generateImageForTitle unsplash title) st))
         \<and> generatingImageForNode (handlePictureSourceSelect_settled targetNodeId
                                      (generateImageForTitle unsplash title) st) = None
         \<and> (\<exists>message. alerts (handlePictureSourceSelect_settled targetNodeId
                                 (generateImageForTitle unsplash title) st)
                = alerts st @ [''Failed to generate image: '' @ message @ ''. Please try again.''])"
proof -
  obtain error where e: "generateImageForTitle unsplash title = Inl error"
    using generateImageForTitle_failed [of unsplash title] assms by blast
  show ?thesis
    unfolding e
    by (simp add: handlePictureSourceSelect_settled_def Let_def list_all2_map_self)
qed

text \<open>
  C10. When the generation settles, by success or by failure, in a state whose node
  sequence does not hold the target id, the node sequence is unchanged: no node is
  created and no image is replaced.
\<close>

theorem settled_for_deleted_node:
  assumes "targetNodeId \<notin> set (map node_id (nodes st))"
  shows "nodes (handlePictureSourceSelect_settled targetNodeId settled st) = nodes st"
proof -
  have "map (\<lambda>node. if node_id node = targetNodeId then upd node else node) (nodes st) = nodes st"
    for upd :: "Node \<Rightarrow> Node"
    by (rule map_idI) (use assms in auto)
  then show ?thesis
    by (simp add: handlePictureSourceSelect_settled_def Let_def split: sum.splits)
qed

theorem generate_failure_falls_back_witness:
  "request_failed ((\<lambda>title. Responded \<lparr>resp_ok = False, resp_status = 403,
                                        resp_statusText = ''Forbidden'', resp_text = Inr ''denied'',
                                        resp_json = Inr []\<rparr>) ''Dogs'')
   \<and> generateImageForTitle (\<lambda>title. Responded \<lparr>resp_ok = False, resp_status = 403,
                                        resp_statusText = ''Forbidden'', resp_text = Inr ''denied'',
                                        resp_json = Inr []\<rparr>) ''Dogs''
       = Inl (JsError ''Unsplash API error (403): Forbidden'')
   \<and> generatingImageForNode
         (handlePictureSourceSelect_settled 1
            (generateImageForTitle (\<lambda>title. Responded \<lparr>resp_ok = False, resp_status = 403,
                                        resp_statusText = ''Forbidden'', resp_text = Inr ''denied'',
                                        resp_json = Inr []\<rparr>) ''Dogs'')
            ((initialState App_nodes)\<lparr>generatingImageForNode := Some 1\<rparr>)) = None
   \<and> list_all2 (\<lambda>node node'.
                      node_id node' = node_id node
                      \<and> node_title node' = node_title node
                      \<and> node_body node' = node_body node
                      \<and> node_image node' = (if node_id node = 1 then FALLBACK_IMAGE
                                             else node_image node))
           (nodes ((initialState App_nodes)\<lparr>generatingImageForNode := Some 1\<rparr>))
           (nodes (handlePictureSourceSelect_settled 1
                     (generateImageForTitle (\<lambda>title. Responded \<lparr>resp_ok = False, resp_status = 403,
                                        resp_statusText = ''Forbidden'', resp_text = Inr ''denied'',
                                        resp_json = Inr []\<rparr>) ''Dogs'')
                     ((initialState App_nodes)\<lparr>generatingImageForNode := Some 1\<rparr>)))"
proof -
  let ?unsplash = "\<lambda>title::string. Responded \<lparr>resp_ok = False, resp_status = 403,
                                        resp_statusText = ''Forbidden'', resp_text = Inr ''denied'',
                                        resp_json = Inr []\<rparr>"
  have failed: "request_failed (?unsplash ''Dogs'')"
    by (simp add: request_failed_def)
  have thrown: "generateImageForTitle ?unsplash ''Dogs''
                = Inl (JsError ''Unsplash API error (403): Forbidden'')"
    by code_simp
  from generate_failure_falls_back
         [of ?unsplash "''Dogs''" 1 "(initialState App_nodes)\<lparr>generatingImageForNode := Some 1\<rparr>"]
       failed thrown
  show ?thesis by blast
qed

theorem settled_for_deleted_node_witness:
  "2 \<notin> set (map node_id (nodes (handleDeleteNode 2
                ((initialState App_nodes)\<lparr>generatingImageForNode := Some 2\<rparr>))))
   \<and> nodes (handlePictureSourceSelect_settled 2 (Inr ''https://images.unsplash.com/photo-1'')
              (handleDeleteNode 2 ((initialState App_nodes)\<lparr>generatingImageForNode := Some 2\<rparr>)))
       = nodes (handleDeleteNode 2 ((initialState App_nodes)\<lparr>generatingImageForNode := Some 2\<rparr>))
   \<and> nodes (handlePictureSourceSelect_settled 2 (Inl (JsError ''Failed to fetch''))
              (handleDeleteNode 2 ((initialState App_nodes)\<lparr>generatingImageForNode := Some 2\<rparr>)))
       = nodes (handleDeleteNode 2 ((initialState App_nodes)\<lparr>generatingImageForNode := Some 2\<rparr>))"
proof -
  let ?st = "handleDeleteNode 2 ((initialState App_nodes)\<lparr>generatingImageForNode := Some 2\<rparr>)"
  have gone: "2 \<notin> set (map node_id (nodes ?st))"
    by (simp add: handleDeleteNode_def initialState_def App_nodes_def)
  from settled_for_deleted_node [OF gone, of "Inr ''https://images.unsplash.com/photo-1''"]
       settled_for_deleted_node [OF gone, of "Inl (JsError ''Failed to fetch'')"] gone
  show ?thesis by blast
qed

end
